theory Spec2Isabelle
  imports Main
begin

section \<open>The data model of fsm.h and fsm.c\<close>

text \<open>
  State and event identifiers are C \<open>int\<close>s.  The engine only compares them for
  equality and tests the sign of a target id; the only arithmetic is on the nest depth
  and on loop counters that index the four-element array of an object state.  Every
  array access of the model is bounds-checked, so these counters never leave a small
  range around \<open>0..4\<close> and the 32-bit wrap-around of \<open>int\<close> is never reached.  They
  are modelled as \<open>int\<close>.
\<close>

abbreviation (input) FSM_CATCH_TRANSITION :: int where "FSM_CATCH_TRANSITION \<equiv> - 1"
abbreviation (input) FSM_ST_SAME :: int where "FSM_ST_SAME \<equiv> - 1"
abbreviation (input) FSM_ST_PARENT :: int where "FSM_ST_PARENT \<equiv> - 2"
abbreviation (input) FSM_ST_ANY :: int where "FSM_ST_ANY \<equiv> - 3"
abbreviation (input) FSM_MAX_STATE_NEST_DEPTH :: int where "FSM_MAX_STATE_NEST_DEPTH \<equiv> 4"

text \<open>
  A callback is a C function pointer.  The model keeps the pointer as an address
  (\<open>NULL\<close> is \<open>0\<close>); what the application's function at an address does is given by
  the application, see \<open>fsm_app\<close> below.
\<close>

type_synonym fptr = nat

abbreviation (input) NULL :: fptr where "NULL \<equiv> 0"

datatype FSM_VERIFY_ERROR =
    eFSM_VERIFY_ERROR_NONE
  | eFSM_VERIFY_ERROR_NOENTRY
  | eFSM_VERIFY_ERROR_NOEXIT

datatype FSM_EXECUTION_RESULT =
    eFSM_RESULT_NEW_STATE
  | eFSM_RESULT_NO_CHANGE
  | eFSM_RESULT_NO_TRANSITION
  | eFSM_RESULT_ACTION_FAILURE
  | eFSM_RESULT_INTERNAL_FAILURE

text \<open>\<open>FSM_TRANSITION\<close>; the two linked lists are lists of function pointers.\<close>

record FSM_TRANSITION =
  iNewStateId :: int
  bSubState :: bool
  iEventId :: int
  listConditions :: "fptr list"
  listActions :: "fptr list"

text \<open>\<open>FSM_STATE\<close>, without the back pointer \<open>pFsm\<close> (a state is reached through its graph).\<close>

record FSM_STATE =
  iStateId :: int
  fpEntryAction :: fptr
  listTransitions :: "FSM_TRANSITION list"
  fpExitAction :: fptr
  bComplex :: bool
  iInitialSubStateId :: int

text \<open>\<open>FSM_CB\<close>, the graph.\<close>

record FSM_CB =
  listStates :: "FSM_STATE list"
  bCreateError :: bool

text \<open>\<open>FSM_OBJECT_STATE\<close>; \<open>iNestedStateIds\<close> is the array \<open>int[4]\<close>.\<close>

record FSM_OBJECT_STATE =
  iNestDepth :: int
  iNestedStateIds :: "int list"
  iPreviousStateId :: int

text \<open>
  The part of \<open>FSM_EXECUTE_ARGS\<close> that the callees read: the event and the two opaque
  pointers handed to the callbacks.
\<close>

record ('c, 'm) FSM_EXECUTE_ARGS =
  argEventId :: int
  AppContext :: 'c
  pAppMsg :: 'm

text \<open>
  The application: what its condition, action, entry and exit functions do.  A callback
  may change the application's memory \<open>'a\<close>; conditions and actions return \<open>FSM_BOOL\<close>
  (\<open>True\<close> is any value other than \<open>FSM_FALSE\<close>).  The callbacks do not touch the
  graph or the object state handed to \<open>fsmExecute\<close>.
\<close>

record ('c, 'm, 'a) fsm_app =
  condition_fn :: "fptr \<Rightarrow> 'c \<Rightarrow> 'm \<Rightarrow> 'a \<Rightarrow> bool \<times> 'a"
  action_fn :: "fptr \<Rightarrow> 'c \<Rightarrow> 'm \<Rightarrow> 'a \<Rightarrow> bool \<times> 'a"
  entry_fn :: "fptr \<Rightarrow> 'c \<Rightarrow> 'a \<Rightarrow> 'a"
  exit_fn :: "fptr \<Rightarrow> 'c \<Rightarrow> 'a \<Rightarrow> 'a"

text \<open>
  The world threaded through a run: the application's memory and the log of the
  callbacks invoked so far, in order.  The log is not program state; it records which
  function pointers the engine has called.
\<close>

datatype fsm_call = CondCall fptr | ActionCall fptr | EntryCall fptr | ExitCall fptr

record 'a world =
  mem :: 'a
  calls :: "fsm_call list"

text \<open>
  Undefined behaviour of the C code is a value of the model: an access to
  \<open>iNestedStateIds\<close> outside \<open>0..3\<close>, the dereference of a null transition pointer,
  the use of a handle that points at no state.
\<close>

datatype fault =
    OutOfBoundsRead int
  | OutOfBoundsWrite int
  | NullDereference
  | InvalidHandle

definition nest_read :: "FSM_OBJECT_STATE \<Rightarrow> int \<Rightarrow> fault + int" where
  "nest_read os i =
     (if 0 \<le> i \<and> i < FSM_MAX_STATE_NEST_DEPTH \<and> nat i < length (iNestedStateIds os)
      then Inr (iNestedStateIds os ! nat i) else Inl (OutOfBoundsRead i))"

definition nest_write :: "FSM_OBJECT_STATE \<Rightarrow> int \<Rightarrow> int \<Rightarrow> fault + FSM_OBJECT_STATE" where
  "nest_write os i v =
     (if 0 \<le> i \<and> i < FSM_MAX_STATE_NEST_DEPTH \<and> nat i < length (iNestedStateIds os)
      then Inr (os\<lparr>iNestedStateIds := (iNestedStateIds os)[nat i := v]\<rparr>)
      else Inl (OutOfBoundsWrite i))"

section \<open>List search: \<open>_fsmGetState\<close>, \<open>_fsmGetTransition\<close>\<close>

text \<open>\<open>_fsmGetState\<close>: the first state of the list with the given id.\<close>

fun fsmGetState :: "FSM_STATE list \<Rightarrow> int \<Rightarrow> FSM_STATE option" where
  "fsmGetState [] a_iStateId = None"
| "fsmGetState (s # ss) a_iStateId =
     (if iStateId s = a_iStateId then Some s else fsmGetState ss a_iStateId)"

text \<open>
  \<open>_fsmGetTransition\<close> searches the nodes that follow the node it is given.  The
  argument is that list of following nodes; the result is the first transition with the
  event id, together with the nodes that follow it (the pointer the caller continues
  from).
\<close>

fun fsmGetTransition ::
  "FSM_TRANSITION list \<Rightarrow> int \<Rightarrow> (FSM_TRANSITION \<times> FSM_TRANSITION list) option" where
  "fsmGetTransition [] a_iEventId = None"
| "fsmGetTransition (t # ts) a_iEventId =
     (if iEventId t = a_iEventId then Some (t, ts) else fsmGetTransition ts a_iEventId)"

section \<open>Executing a transition and a state\<close>

definition call_condition ::
  "('c, 'm, 'a) fsm_app \<Rightarrow> ('c, 'm) FSM_EXECUTE_ARGS \<Rightarrow> fptr \<Rightarrow> 'a world \<Rightarrow> bool \<times> 'a world" where
  "call_condition app args fp w =
     (case condition_fn app fp (AppContext args) (pAppMsg args) (mem w) of
        (b, m) \<Rightarrow> (b, \<lparr>mem = m, calls = calls w @ [CondCall fp]\<rparr>))"

definition call_action ::
  "('c, 'm, 'a) fsm_app \<Rightarrow> ('c, 'm) FSM_EXECUTE_ARGS \<Rightarrow> fptr \<Rightarrow> 'a world \<Rightarrow> bool \<times> 'a world" where
  "call_action app args fp w =
     (case action_fn app fp (AppContext args) (pAppMsg args) (mem w) of
        (b, m) \<Rightarrow> (b, \<lparr>mem = m, calls = calls w @ [ActionCall fp]\<rparr>))"

text \<open>
  The action loop of \<open>_fsmExecuteTransition\<close> (fsm.c 946-967); the result is
  \<open>l_bActionsPass\<close>.  A failing action stops the loop unless the transition is a
  catch transition.
\<close>

fun actions_loop ::
  "('c, 'm, 'a) fsm_app \<Rightarrow> ('c, 'm) FSM_EXECUTE_ARGS \<Rightarrow> int \<Rightarrow> fptr list \<Rightarrow> 'a world
     \<Rightarrow> bool \<times> 'a world" where
  "actions_loop app args ev [] w = (True, w)"
| "actions_loop app args ev (a # as) w =
     (if a \<noteq> NULL then
        (case call_action app args a w of
           (b, w') \<Rightarrow>
             if \<not> b \<and> FSM_CATCH_TRANSITION \<noteq> ev then (False, w')
             else actions_loop app args ev as w')
      else actions_loop app args ev as w)"

text \<open>\<open>_fsmExecuteTransition\<close> (fsm.c 925-986).\<close>

definition fsmExecuteTransition ::
  "('c, 'm, 'a) fsm_app \<Rightarrow> ('c, 'm) FSM_EXECUTE_ARGS \<Rightarrow> FSM_STATE \<Rightarrow> FSM_TRANSITION \<Rightarrow> 'a world
     \<Rightarrow> FSM_EXECUTION_RESULT \<times> 'a world" where
  "fsmExecuteTransition app args a_pCurrentState a_pTransition w =
     (case actions_loop app args (iEventId a_pTransition) (listActions a_pTransition) w of
        (l_bActionsPass, w') \<Rightarrow>
          if \<not> l_bActionsPass then (eFSM_RESULT_ACTION_FAILURE, w')
          else if FSM_ST_SAME = iNewStateId a_pTransition then (eFSM_RESULT_NO_CHANGE, w')
          else (eFSM_RESULT_NEW_STATE, w'))"

text \<open>
  The condition loop of \<open>_fsmExecuteState\<close> (fsm.c 1047-1063); the result is
  \<open>l_bConditionsPass\<close>.
\<close>

fun conditions_loop ::
  "('c, 'm, 'a) fsm_app \<Rightarrow> ('c, 'm) FSM_EXECUTE_ARGS \<Rightarrow> fptr list \<Rightarrow> 'a world \<Rightarrow> bool \<times> 'a world" where
  "conditions_loop app args [] w = (True, w)"
| "conditions_loop app args (c # cs) w =
     (if c \<noteq> NULL then
        (case call_condition app args c w of
           (b, w') \<Rightarrow> if \<not> b then (False, w') else conditions_loop app args cs w')
      else conditions_loop app args cs w)"

text \<open>
  The transition loop of \<open>_fsmExecuteState\<close> (fsm.c 1037-1090).  \<open>ts\<close> are the nodes
  after \<open>l_pTransitionList\<close>, \<open>lpT\<close> is the local \<open>l_pTransition\<close>.  The loop ends when
  no further transition carries the event, or after the first candidate whose
  conditions pass has been executed: then \<open>l_bTransitionPass\<close> is set.  The result is
  \<open>l_eResult\<close> and \<open>l_pTransition\<close> at the loop's exit.
\<close>

function fsmExecuteState_loop ::
  "('c, 'm, 'a) fsm_app \<Rightarrow> ('c, 'm) FSM_EXECUTE_ARGS \<Rightarrow> FSM_STATE \<Rightarrow> FSM_TRANSITION list
     \<Rightarrow> FSM_EXECUTION_RESULT \<Rightarrow> FSM_TRANSITION option \<Rightarrow> 'a world
     \<Rightarrow> FSM_EXECUTION_RESULT \<times> FSM_TRANSITION option \<times> 'a world" where
  "fsmExecuteState_loop app args st ts l_eResult lpT w =
     (case fsmGetTransition ts (argEventId args) of
        None \<Rightarrow> (l_eResult, lpT, w)
      | Some (t, rest) \<Rightarrow>
          (case conditions_loop app args (listConditions t) w of
             (l_bConditionsPass, w1) \<Rightarrow>
               if \<not> l_bConditionsPass
               then fsmExecuteState_loop app args st rest l_eResult (Some t) w1
               else
                 (case fsmExecuteTransition app args st t w1 of
                    (r, w2) \<Rightarrow>
                      if eFSM_RESULT_ACTION_FAILURE = r then
                        (case fsmGetTransition (listTransitions st) FSM_CATCH_TRANSITION of
                           None \<Rightarrow> (r, None, w2)
                         | Some (ct, _) \<Rightarrow>
                             (case fsmExecuteTransition app args st ct w2 of
                                (r', w3) \<Rightarrow> (r', Some ct, w3)))
                      else (r, Some t, w2))))"
  by pat_completeness auto
termination
proof -
  have shorter: "length rest < length ts"
    if "fsmGetTransition ts ev = Some (t, rest)" for ts ev t rest
    using that by (induction ts) (auto split: if_splits)
  show ?thesis
    by (relation "measure (\<lambda>(app, args, st, ts, r, lpT, w). length ts)")
       (auto simp: shorter)
qed

declare fsmExecuteState_loop.simps [simp del]

text \<open>
  The end of \<open>_fsmExecuteState\<close> (fsm.c 1095-1101): the two out-parameters, passed
  in as \<open>a_piNewStateId\<close> and \<open>a_pbIsSubState\<close>, are written from
  \<open>l_pTransition\<close> only when the result is \<open>eFSM_RESULT_NEW_STATE\<close>.
\<close>

definition fsmExecuteState_out ::
  "int \<Rightarrow> bool \<Rightarrow> FSM_EXECUTION_RESULT \<times> FSM_TRANSITION option \<times> 'a world
     \<Rightarrow> fault + (FSM_EXECUTION_RESULT \<times> int \<times> bool \<times> 'a world)" where
  "fsmExecuteState_out a_piNewStateId a_pbIsSubState x =
     (case x of
        (l_eResult, l_pTransition, w') \<Rightarrow>
          if eFSM_RESULT_NEW_STATE = l_eResult then
            (case l_pTransition of
               None \<Rightarrow> Inl NullDereference
             | Some t \<Rightarrow> Inr (l_eResult, iNewStateId t, bSubState t, w'))
          else Inr (l_eResult, a_piNewStateId, a_pbIsSubState, w'))"

text \<open>\<open>_fsmExecuteState\<close> (fsm.c 1006-1102).\<close>

definition fsmExecuteState ::
  "('c, 'm, 'a) fsm_app \<Rightarrow> ('c, 'm) FSM_EXECUTE_ARGS \<Rightarrow> FSM_STATE \<Rightarrow> int \<Rightarrow> bool \<Rightarrow> 'a world
     \<Rightarrow> fault + (FSM_EXECUTION_RESULT \<times> int \<times> bool \<times> 'a world)" where
  "fsmExecuteState app args a_pstCurrentState a_piNewStateId a_pbIsSubState w =
     fsmExecuteState_out a_piNewStateId a_pbIsSubState
       (fsmExecuteState_loop app args a_pstCurrentState (listTransitions a_pstCurrentState)
          eFSM_RESULT_NO_TRANSITION None w)"

section \<open>\<open>fsmExecute\<close>\<close>

definition call_entry :: "('c, 'm, 'a) fsm_app \<Rightarrow> 'c \<Rightarrow> fptr \<Rightarrow> 'a world \<Rightarrow> 'a world" where
  "call_entry app ctx fp w = \<lparr>mem = entry_fn app fp ctx (mem w), calls = calls w @ [EntryCall fp]\<rparr>"

definition call_exit :: "('c, 'm, 'a) fsm_app \<Rightarrow> 'c \<Rightarrow> fptr \<Rightarrow> 'a world \<Rightarrow> 'a world" where
  "call_exit app ctx fp w = \<lparr>mem = exit_fn app fp ctx (mem w), calls = calls w @ [ExitCall fp]\<rparr>"

text \<open>The call of a state's entry function, if it has one (fsm.c 1267-1268).\<close>

definition enter_state :: "('c, 'm, 'a) fsm_app \<Rightarrow> 'c \<Rightarrow> FSM_STATE \<Rightarrow> 'a world \<Rightarrow> 'a world" where
  "enter_state app ctx l_pNewState w =
     (if NULL \<noteq> fpEntryAction l_pNewState
      then call_entry app ctx (fpEntryAction l_pNewState) w else w)"

text \<open>The call of a state's exit function, if it has one (fsm.c 1222-1223).\<close>

definition exit_state :: "('c, 'm, 'a) fsm_app \<Rightarrow> 'c \<Rightarrow> FSM_STATE \<Rightarrow> 'a world \<Rightarrow> 'a world" where
  "exit_state app ctx l_pstExittingState w =
     (if NULL \<noteq> fpExitAction l_pstExittingState
      then call_exit app ctx (fpExitAction l_pstExittingState) w else w)"

text \<open>
  How the nest scan of \<open>fsmExecute\<close> (fsm.c 1145-1164) is left: by the
  \<open>return eFSM_RESULT_NO_TRANSITION\<close> of line 1149, or at the loop's end or
  \<open>break\<close> with the locals \<open>l_eResult\<close>, \<open>l_iNewStateId\<close>,
  \<open>l_bNewStateIsSubState\<close> and \<open>l_iStateChangeDepth\<close>.
\<close>

datatype 'a scan_exit =
    ScanReturn "'a world"
  | ScanEnd FSM_EXECUTION_RESULT int bool int "'a world"

text \<open>The \<open>for\<close> loop over the nest indices, from \<open>l_iNestDepthCnt\<close> on.\<close>

function fsmExecute_scan ::
  "('c, 'm, 'a) fsm_app \<Rightarrow> FSM_CB \<Rightarrow> FSM_OBJECT_STATE \<Rightarrow> ('c, 'm) FSM_EXECUTE_ARGS \<Rightarrow> int
     \<Rightarrow> int \<Rightarrow> bool \<Rightarrow> 'a world \<Rightarrow> fault + 'a scan_exit" where
  "fsmExecute_scan app l_pFsm os args l_iNestDepthCnt l_iNewStateId l_bNewStateIsSubState w =
     (if l_iNestDepthCnt \<le> iNestDepth os then
        (case nest_read os l_iNestDepthCnt of
           Inl f \<Rightarrow> Inl f
         | Inr sid \<Rightarrow>
             (case fsmGetState (listStates l_pFsm) sid of
                None \<Rightarrow> Inr (ScanReturn w)
              | Some l_pstCurrentState \<Rightarrow>
                  (case fsmExecuteState app args l_pstCurrentState
                          l_iNewStateId l_bNewStateIsSubState w of
                     Inl f \<Rightarrow> Inl f
                   | Inr (l_eResult, newId, isSub, w') \<Rightarrow>
                       if eFSM_RESULT_NO_TRANSITION \<noteq> l_eResult
                       then Inr (ScanEnd l_eResult newId isSub l_iNestDepthCnt w')
                       else fsmExecute_scan app l_pFsm os args (l_iNestDepthCnt + 1)
                              newId isSub w')))
      else Inr (ScanEnd eFSM_RESULT_NO_TRANSITION l_iNewStateId l_bNewStateIsSubState 0 w))"
  by pat_completeness auto
termination
  by (relation "measure (\<lambda>(app, fsm, os, args, cnt, newId, isSub, w). nat (FSM_MAX_STATE_NEST_DEPTH - cnt))")
     (auto simp: nest_read_def split: if_splits)

declare fsmExecute_scan.simps [simp del]

text \<open>The any-state fallback (fsm.c 1169-1179).\<close>

definition fsmExecute_any ::
  "('c, 'm, 'a) fsm_app \<Rightarrow> FSM_CB \<Rightarrow> ('c, 'm) FSM_EXECUTE_ARGS \<Rightarrow> FSM_EXECUTION_RESULT
     \<Rightarrow> int \<Rightarrow> bool \<Rightarrow> 'a world \<Rightarrow> fault + (FSM_EXECUTION_RESULT \<times> int \<times> bool \<times> 'a world)" where
  "fsmExecute_any app l_pFsm args l_eResult l_iNewStateId l_bNewStateIsSubState w =
     (if eFSM_RESULT_NO_TRANSITION = l_eResult then
        (case fsmGetState (listStates l_pFsm) FSM_ST_ANY of
           None \<Rightarrow> Inr (l_eResult, l_iNewStateId, l_bNewStateIsSubState, w)
         | Some l_pAnyState \<Rightarrow>
             fsmExecuteState app args l_pAnyState l_iNewStateId l_bNewStateIsSubState w)
      else Inr (l_eResult, l_iNewStateId, l_bNewStateIsSubState, w))"

text \<open>
  The exit loop (fsm.c 1213-1225): from \<open>l_iNestDepthCnt\<close> down to
  \<open>l_iStateChangeDepth\<close>, the exit function of each state found is called.
\<close>

function fsmExecute_exit ::
  "('c, 'm, 'a) fsm_app \<Rightarrow> FSM_CB \<Rightarrow> FSM_OBJECT_STATE \<Rightarrow> 'c \<Rightarrow> int \<Rightarrow> int \<Rightarrow> 'a world
     \<Rightarrow> fault + 'a world" where
  "fsmExecute_exit app l_pFsm os ctx l_iNestDepthCnt l_iStateChangeDepth w =
     (if l_iNestDepthCnt \<ge> l_iStateChangeDepth then
        (case nest_read os l_iNestDepthCnt of
           Inl f \<Rightarrow> Inl f
         | Inr sid \<Rightarrow>
             fsmExecute_exit app l_pFsm os ctx (l_iNestDepthCnt - 1) l_iStateChangeDepth
               (case fsmGetState (listStates l_pFsm) sid of
                  None \<Rightarrow> w
                | Some l_pstExittingState \<Rightarrow> exit_state app ctx l_pstExittingState w))
      else Inr w)"
  by pat_completeness auto
termination
  by (relation "measure (\<lambda>(app, fsm, os, ctx, cnt, low, w). nat (cnt - low + 1))") auto

declare fsmExecute_exit.simps [simp del]

text \<open>
  The \<open>do ... while (l_bComplexState)\<close> loop of the state entry (fsm.c 1254-1291).
  The loop either returns \<open>eFSM_RESULT_INTERNAL_FAILURE\<close> or falls through to the
  \<open>return l_eResult\<close> that ends \<open>fsmExecute\<close>.  The lookup of the new state
  (line 1261) has no effect of its own; the model makes it after the write of line 1263.
\<close>

function fsmExecute_entry_loop ::
  "('c, 'm, 'a) fsm_app \<Rightarrow> FSM_CB \<Rightarrow> FSM_OBJECT_STATE \<Rightarrow> 'c \<Rightarrow> FSM_EXECUTION_RESULT \<Rightarrow> int
     \<Rightarrow> 'a world \<Rightarrow> fault + (FSM_EXECUTION_RESULT \<times> FSM_OBJECT_STATE \<times> 'a world)" where
  "fsmExecute_entry_loop app l_pFsm os ctx l_eResult l_iNewStateId w =
     (case nest_write os (iNestDepth os) l_iNewStateId of
        Inl f \<Rightarrow> Inl f
      | Inr os1 \<Rightarrow>
          (case fsmGetState (listStates l_pFsm) l_iNewStateId of
             None \<Rightarrow> Inr (l_eResult, os1, w)
           | Some l_pNewState \<Rightarrow>
               (let w1 = enter_state app ctx l_pNewState w
                in if bComplex l_pNewState \<and> FSM_ST_SAME \<noteq> iInitialSubStateId l_pNewState then
                     if iNestDepth os1 \<ge> FSM_MAX_STATE_NEST_DEPTH - 1
                     then Inr (eFSM_RESULT_INTERNAL_FAILURE, os1, w1)
                     else fsmExecute_entry_loop app l_pFsm
                            (os1\<lparr>iNestDepth := iNestDepth os1 + 1\<rparr>) ctx l_eResult
                            (iInitialSubStateId l_pNewState) w1
                   else Inr (l_eResult, os1, w1))))"
  by pat_completeness auto
termination
  by (relation "measure (\<lambda>(app, fsm, os, ctx, r, newId, w). nat (FSM_MAX_STATE_NEST_DEPTH - iNestDepth os))")
     (auto simp: nest_write_def split: if_splits)

declare fsmExecute_entry_loop.simps [simp del]

text \<open>The state entry (fsm.c 1250-1292): skipped when the target is the parent.\<close>

definition fsmExecute_entry ::
  "('c, 'm, 'a) fsm_app \<Rightarrow> FSM_CB \<Rightarrow> FSM_OBJECT_STATE \<Rightarrow> 'c \<Rightarrow> FSM_EXECUTION_RESULT \<Rightarrow> int
     \<Rightarrow> 'a world \<Rightarrow> fault + (FSM_EXECUTION_RESULT \<times> FSM_OBJECT_STATE \<times> 'a world)" where
  "fsmExecute_entry app l_pFsm os ctx l_eResult l_iNewStateId w =
     (if FSM_ST_PARENT \<noteq> l_iNewStateId
      then fsmExecute_entry_loop app l_pFsm os ctx l_eResult l_iNewStateId w
      else Inr (l_eResult, os, w))"

text \<open>
  The state change (fsm.c 1187-1293, the body of
  \<open>if (eFSM_RESULT_NEW_STATE == l_eResult)\<close>): previous state id, then either the
  sub-state push or the exits and the new depth, then the state entry.
\<close>

definition fsmExecute_change ::
  "('c, 'm, 'a) fsm_app \<Rightarrow> FSM_CB \<Rightarrow> FSM_OBJECT_STATE \<Rightarrow> 'c \<Rightarrow> FSM_EXECUTION_RESULT \<Rightarrow> int
     \<Rightarrow> bool \<Rightarrow> int \<Rightarrow> 'a world
     \<Rightarrow> fault + (FSM_EXECUTION_RESULT \<times> FSM_OBJECT_STATE \<times> 'a world)" where
  "fsmExecute_change app l_pFsm os ctx l_eResult l_iNewStateId l_bNewStateIsSubState
       l_iStateChangeDepth w =
     (case nest_read os (iNestDepth os) of
        Inl f \<Rightarrow> Inl f
      | Inr cur \<Rightarrow>
          (let os1 = os\<lparr>iPreviousStateId := cur\<rparr> in
           if l_bNewStateIsSubState then
             if iNestDepth os1 \<ge> FSM_MAX_STATE_NEST_DEPTH
             then Inr (eFSM_RESULT_INTERNAL_FAILURE, os1, w)
             else fsmExecute_entry app l_pFsm (os1\<lparr>iNestDepth := iNestDepth os1 + 1\<rparr>) ctx
                    l_eResult l_iNewStateId w
           else
             (case fsmExecute_exit app l_pFsm os1 ctx (iNestDepth os1) l_iStateChangeDepth w of
                Inl f \<Rightarrow> Inl f
              | Inr w1 \<Rightarrow>
                  fsmExecute_entry app l_pFsm
                    (if FSM_ST_PARENT = l_iNewStateId then
                       (if iNestDepth os1 > 0 then os1\<lparr>iNestDepth := iNestDepth os1 - 1\<rparr>
                        else os1)
                     else os1\<lparr>iNestDepth := l_iStateChangeDepth\<rparr>)
                    ctx l_eResult l_iNewStateId w1)))"

text \<open>
  \<open>fsmExecute\<close> (fsm.c 1110-1296).  The handle \<open>a_hFsm\<close> may be \<open>NULL\<close>
  (\<open>None\<close>); the object state is the caller's record, returned as the call leaves it.
\<close>

definition fsmExecute ::
  "('c, 'm, 'a) fsm_app \<Rightarrow> FSM_CB option \<Rightarrow> FSM_OBJECT_STATE \<Rightarrow> int \<Rightarrow> 'c \<Rightarrow> 'm \<Rightarrow> 'a world
     \<Rightarrow> fault + (FSM_EXECUTION_RESULT \<times> FSM_OBJECT_STATE \<times> 'a world)" where
  "fsmExecute app a_hFsm a_pObjectState a_iEventId a_AppContext a_pAppMsg w =
     (case a_hFsm of
        None \<Rightarrow> Inr (eFSM_RESULT_NO_TRANSITION, a_pObjectState, w)
      | Some l_pFsm \<Rightarrow>
          if FSM_CATCH_TRANSITION = a_iEventId
          then Inr (eFSM_RESULT_NO_TRANSITION, a_pObjectState, w)
          else
            (let l_stExecuteArgs =
                   \<lparr>argEventId = a_iEventId, AppContext = a_AppContext, pAppMsg = a_pAppMsg\<rparr>
             in case fsmExecute_scan app l_pFsm a_pObjectState l_stExecuteArgs 0 (- 1) False w of
                  Inl f \<Rightarrow> Inl f
                | Inr (ScanReturn w') \<Rightarrow> Inr (eFSM_RESULT_NO_TRANSITION, a_pObjectState, w')
                | Inr (ScanEnd r newId isSub l_iStateChangeDepth w1) \<Rightarrow>
                    (case fsmExecute_any app l_pFsm l_stExecuteArgs r newId isSub w1 of
                       Inl f \<Rightarrow> Inl f
                     | Inr (l_eResult, l_iNewStateId, l_bNewStateIsSubState, w2) \<Rightarrow>
                         if eFSM_RESULT_NEW_STATE = l_eResult
                         then fsmExecute_change app l_pFsm a_pObjectState a_AppContext l_eResult
                                l_iNewStateId l_bNewStateIsSubState l_iStateChangeDepth w2
                         else Inr (l_eResult, a_pObjectState, w2))))"

text \<open>\<open>fsmSetStartState\<close> (fsm.c 149-157), for an object state that is not \<open>NULL\<close>.\<close>

definition fsmSetStartState :: "FSM_OBJECT_STATE \<Rightarrow> int \<Rightarrow> int \<Rightarrow> fault + FSM_OBJECT_STATE" where
  "fsmSetStartState a_pstFsmObjectState a_iStartingStateId a_iPreviousStateId =
     (case nest_write (a_pstFsmObjectState\<lparr>iNestDepth := 0\<rparr>) 0 a_iStartingStateId of
        Inl f \<Rightarrow> Inl f
      | Inr os \<Rightarrow> Inr (os\<lparr>iPreviousStateId := a_iPreviousStateId\<rparr>))"

section \<open>The verifier: \<open>fsmVerifyFsm\<close>\<close>

text \<open>\<open>_fsmIsStateEntered\<close> (fsm.c 215-244): the inner and the outer loop.\<close>

fun transitions_enter :: "FSM_TRANSITION list \<Rightarrow> int \<Rightarrow> bool" where
  "transitions_enter [] a_iStateId = False"
| "transitions_enter (t # ts) a_iStateId =
     (if iNewStateId t = a_iStateId then True else transitions_enter ts a_iStateId)"

fun states_enter :: "FSM_STATE list \<Rightarrow> int \<Rightarrow> bool" where
  "states_enter [] a_iStateId = False"
| "states_enter (s # ss) a_iStateId =
     (if transitions_enter (listTransitions s) a_iStateId then True
      else states_enter ss a_iStateId)"

definition fsmIsStateEntered :: "FSM_CB option \<Rightarrow> int \<Rightarrow> bool" where
  "fsmIsStateEntered a_pFsm a_iStateId =
     (case a_pFsm of None \<Rightarrow> False | Some fsm \<Rightarrow> states_enter (listStates fsm) a_iStateId)"

text \<open>\<open>_fsmIsStateExitted\<close> (fsm.c 257-295).\<close>

fun transitions_exit :: "FSM_TRANSITION list \<Rightarrow> int \<Rightarrow> bool" where
  "transitions_exit [] a_iStateId = False"
| "transitions_exit (t # ts) a_iStateId =
     (if iNewStateId t \<noteq> a_iStateId \<and> iNewStateId t \<noteq> FSM_ST_SAME then True
      else transitions_exit ts a_iStateId)"

fun states_exit :: "FSM_STATE list \<Rightarrow> int \<Rightarrow> bool" where
  "states_exit [] a_iStateId = False"
| "states_exit (s # ss) a_iStateId =
     (if iStateId s = a_iStateId \<and> transitions_exit (listTransitions s) a_iStateId then True
      else states_exit ss a_iStateId)"

definition fsmIsStateExitted :: "FSM_CB option \<Rightarrow> int \<Rightarrow> bool" where
  "fsmIsStateExitted a_pFsm a_iStateId =
     (case a_pFsm of None \<Rightarrow> False | Some fsm \<Rightarrow> states_exit (listStates fsm) a_iStateId)"

text \<open>
  The verify callback \<open>FSM_FUNC_VERIFY_CB\<close> acts on the application's memory \<open>'v\<close>;
  the pointer may be \<open>NULL\<close> (\<open>None\<close>), then nothing is called.
\<close>

type_synonym 'v verify_cb = "(int \<Rightarrow> FSM_VERIFY_ERROR \<Rightarrow> 'v \<Rightarrow> 'v) option"

definition call_verify_cb :: "'v verify_cb \<Rightarrow> int \<Rightarrow> FSM_VERIFY_ERROR \<Rightarrow> 'v \<Rightarrow> 'v" where
  "call_verify_cb a_fpVerifyCb sid err v =
     (case a_fpVerifyCb of None \<Rightarrow> v | Some f \<Rightarrow> f sid err v)"

text \<open>The first loop of \<open>fsmVerifyFsm\<close> (fsm.c 321-336), threading \<open>l_bRc\<close>.\<close>

fun verify_entered_loop ::
  "FSM_CB \<Rightarrow> 'v verify_cb \<Rightarrow> FSM_STATE list \<Rightarrow> bool \<Rightarrow> 'v \<Rightarrow> bool \<times> 'v" where
  "verify_entered_loop l_pFsm cb [] l_bRc v = (l_bRc, v)"
| "verify_entered_loop l_pFsm cb (s # ss) l_bRc v =
     (if FSM_ST_ANY \<noteq> iStateId s then
        (if \<not> fsmIsStateEntered (Some l_pFsm) (iStateId s)
         then verify_entered_loop l_pFsm cb ss False
                (call_verify_cb cb (iStateId s) eFSM_VERIFY_ERROR_NOENTRY v)
         else verify_entered_loop l_pFsm cb ss l_bRc v)
      else verify_entered_loop l_pFsm cb ss l_bRc v)"

text \<open>The second loop (fsm.c 344-366): its inner loop over one state's transitions.\<close>

fun verify_exitted_transitions ::
  "FSM_CB \<Rightarrow> 'v verify_cb \<Rightarrow> FSM_TRANSITION list \<Rightarrow> bool \<Rightarrow> 'v \<Rightarrow> bool \<times> 'v" where
  "verify_exitted_transitions l_pFsm cb [] l_bRc v = (l_bRc, v)"
| "verify_exitted_transitions l_pFsm cb (t # ts) l_bRc v =
     (if iNewStateId t \<ge> 0 then
        (if \<not> fsmIsStateExitted (Some l_pFsm) (iNewStateId t)
         then verify_exitted_transitions l_pFsm cb ts False
                (call_verify_cb cb (iNewStateId t) eFSM_VERIFY_ERROR_NOEXIT v)
         else verify_exitted_transitions l_pFsm cb ts l_bRc v)
      else verify_exitted_transitions l_pFsm cb ts l_bRc v)"

fun verify_exitted_loop ::
  "FSM_CB \<Rightarrow> 'v verify_cb \<Rightarrow> FSM_STATE list \<Rightarrow> bool \<Rightarrow> 'v \<Rightarrow> bool \<times> 'v" where
  "verify_exitted_loop l_pFsm cb [] l_bRc v = (l_bRc, v)"
| "verify_exitted_loop l_pFsm cb (s # ss) l_bRc v =
     (case verify_exitted_transitions l_pFsm cb (listTransitions s) l_bRc v of
        (rc, v') \<Rightarrow> verify_exitted_loop l_pFsm cb ss rc v')"

text \<open>\<open>fsmVerifyFsm\<close> (fsm.c 303-370).\<close>

definition fsmVerifyFsm :: "FSM_CB option \<Rightarrow> 'v verify_cb \<Rightarrow> 'v \<Rightarrow> bool \<times> 'v" where
  "fsmVerifyFsm a_hFsm a_fpVerifyCb v =
     (case a_hFsm of
        None \<Rightarrow> (False, v)
      | Some l_pFsm \<Rightarrow>
          (case verify_entered_loop l_pFsm a_fpVerifyCb (listStates l_pFsm) True v of
             (l_bRc, v1) \<Rightarrow>
               verify_exitted_loop l_pFsm a_fpVerifyCb (listStates l_pFsm) l_bRc v1))"

section \<open>The builder: \<open>fsmCatchTransition\<close>\<close>

text \<open>
  \<open>_fsmCreateObject\<close> (fsm.c 1327-1336) is \<open>malloc\<close> and \<open>memset\<close>.  The allocator
  is a count of the objects it can still provide: the call succeeds and takes one, or
  fails at zero.
\<close>

definition fsmCreateObject :: "nat \<Rightarrow> bool \<times> nat" where
  "fsmCreateObject heap = (if 0 < heap then (True, heap - 1) else (False, heap))"

text \<open>
  The loop over the variadic action arguments (fsm.c 893-908).  \<open>fps\<close> are the
  arguments as passed; the loop ends at the first \<open>NULL\<close> (\<open>FSM_END\<close>), which C
  requires to be there and the model supplies at the end of the list.  The result is
  whether every allocation succeeded, the action list built, and the allocator.
\<close>

fun catch_actions_loop :: "fptr list \<Rightarrow> fptr list \<Rightarrow> nat \<Rightarrow> bool \<times> fptr list \<times> nat" where
  "catch_actions_loop [] acts heap = (True, acts, heap)"
| "catch_actions_loop (l_fpAction # fps) acts heap =
     (if NULL \<noteq> l_fpAction then
        (case fsmCreateObject heap of
           (False, heap') \<Rightarrow> (False, acts, heap')
         | (True, heap') \<Rightarrow> catch_actions_loop fps (acts @ [l_fpAction]) heap')
      else (True, acts, heap))"

text \<open>
  \<open>fsmCatchTransition\<close> (fsm.c 854-912).  A state handle is \<open>NULL\<close> (\<open>None\<close>) or
  points at a state of the graph, given by its position in \<open>listStates\<close>.  The
  transition is appended to the state's list before its actions are allocated, as in
  the source.
\<close>

definition fsmCatchTransition ::
  "FSM_CB \<Rightarrow> nat \<Rightarrow> nat option \<Rightarrow> int \<Rightarrow> fptr list \<Rightarrow> fault + (bool \<times> FSM_CB \<times> nat)" where
  "fsmCatchTransition fsm heap a_hState a_iNewStateId fps =
     (case a_hState of
        None \<Rightarrow> Inr (False, fsm, heap)
      | Some h \<Rightarrow>
          if \<not> h < length (listStates fsm) then Inl InvalidHandle
          else
            (let l_pState = listStates fsm ! h in
             if fsmGetTransition (listTransitions l_pState) FSM_CATCH_TRANSITION \<noteq> None
             then Inr (False, fsm, heap)
             else
               (case fsmCreateObject heap of
                  (False, heap1) \<Rightarrow> Inr (False, fsm\<lparr>bCreateError := True\<rparr>, heap1)
                | (True, heap1) \<Rightarrow>
                    (case catch_actions_loop fps [] heap1 of
                       (ok, acts, heap2) \<Rightarrow>
                         (let l_pTransition =
                                \<lparr>iNewStateId = a_iNewStateId, bSubState = False,
                                 iEventId = FSM_CATCH_TRANSITION, listConditions = [],
                                 listActions = acts\<rparr>;
                              fsm1 = fsm\<lparr>listStates := (listStates fsm)
                                       [h := l_pState\<lparr>listTransitions :=
                                               listTransitions l_pState @ [l_pTransition]\<rparr>]\<rparr>
                          in if ok then Inr (True, fsm1, heap2)
                             else Inr (False, fsm1\<lparr>bCreateError := True\<rparr>, heap2))))))"

text \<open>\<open>fsmHasCreateErrorOccurred\<close> (fsm.c 377-385).\<close>

definition fsmHasCreateErrorOccurred :: "FSM_CB option \<Rightarrow> bool" where
  "fsmHasCreateErrorOccurred a_hFsm =
     (case a_hFsm of None \<Rightarrow> True | Some l_pFsm \<Rightarrow> bCreateError l_pFsm)"

section \<open>The specification's notions\<close>

text \<open>
  An object state as the data model has it: the array has its four elements and the
  depth indexes it.
\<close>

definition object_state_ok :: "FSM_OBJECT_STATE \<Rightarrow> bool" where
  "object_state_ok os \<longleftrightarrow>
     length (iNestedStateIds os) = 4 \<and> 0 \<le> iNestDepth os
       \<and> iNestDepth os < FSM_MAX_STATE_NEST_DEPTH"

text \<open>
  Step A within one state, in the specification's words: the transitions are gone
  through in declaration order; one with another event id is no candidate; a candidate
  whose condition chain fails is skipped; the first candidate whose chain holds is the
  match.  The conditions are evaluated as the search goes, so the world is threaded.
\<close>

fun select_transition ::
  "('c, 'm, 'a) fsm_app \<Rightarrow> ('c, 'm) FSM_EXECUTE_ARGS \<Rightarrow> FSM_TRANSITION list \<Rightarrow> 'a world
     \<Rightarrow> FSM_TRANSITION option \<times> 'a world" where
  "select_transition app args [] w = (None, w)"
| "select_transition app args (t # ts) w =
     (if iEventId t = argEventId args then
        (case conditions_loop app args (listConditions t) w of
           (True, w') \<Rightarrow> (Some t, w')
         | (False, w') \<Rightarrow> select_transition app args ts w')
      else select_transition app args ts w)"

text \<open>
  Step A over the nest: the active states are gone through outermost first; the first
  state with a match gives the matched transition and the match depth.  \<open>i\<close> is the
  nest index of the head of the list.
\<close>

fun select_nest ::
  "('c, 'm, 'a) fsm_app \<Rightarrow> ('c, 'm) FSM_EXECUTE_ARGS \<Rightarrow> FSM_STATE list \<Rightarrow> nat \<Rightarrow> 'a world
     \<Rightarrow> (nat \<times> FSM_STATE \<times> FSM_TRANSITION) option \<times> 'a world" where
  "select_nest app args [] i w = (None, w)"
| "select_nest app args (s # ss) i w =
     (case select_transition app args (listTransitions s) w of
        (Some t, w') \<Rightarrow> (Some (i, s, t), w')
      | (None, w') \<Rightarrow> select_nest app args ss (Suc i) w')"

text \<open>
  Invoking callbacks, in the specification's words.  These notions are stated on the
  application's own functions and on the log, not on the engine's code.

  \<open>run_all_actions\<close>: every action of the list that is not \<open>NULL\<close> is invoked, in
  the order of the list, whatever each returns.  The memory is the one the application's
  action functions leave, each applied to the memory left by the one before; the log
  grows by one \<open>ActionCall\<close> for each.
\<close>

definition run_all_actions ::
  "('c, 'm, 'a) fsm_app \<Rightarrow> ('c, 'm) FSM_EXECUTE_ARGS \<Rightarrow> fptr list \<Rightarrow> 'a world \<Rightarrow> 'a world" where
  "run_all_actions app args as w =
     \<lparr>mem = foldl (\<lambda>m a. snd (action_fn app a (AppContext args) (pAppMsg args) m)) (mem w)
              (filter (\<lambda>a. a \<noteq> NULL) as),
      calls = calls w @ map ActionCall (filter (\<lambda>a. a \<noteq> NULL) as)\<rparr>"

text \<open>
  \<open>actions_succeed\<close>: every action of the list that is not \<open>NULL\<close> returns
  \<open>FSM_TRUE\<close> when the actions are invoked in order from the memory \<open>m\<close>.
\<close>

fun actions_succeed ::
  "('c, 'm, 'a) fsm_app \<Rightarrow> ('c, 'm) FSM_EXECUTE_ARGS \<Rightarrow> fptr list \<Rightarrow> 'a \<Rightarrow> bool" where
  "actions_succeed app args [] m = True"
| "actions_succeed app args (a # as) m =
     (if a = NULL then actions_succeed app args as m
      else fst (action_fn app a (AppContext args) (pAppMsg args) m)
           \<and> actions_succeed app args as
                (snd (action_fn app a (AppContext args) (pAppMsg args) m)))"

text \<open>
  \<open>run_entries\<close> and \<open>run_exits\<close>: the entry (exit) functions at the pointers of
  the list that are not \<open>NULL\<close> are invoked in the order of the list.
\<close>

definition run_entries ::
  "('c, 'm, 'a) fsm_app \<Rightarrow> 'c \<Rightarrow> fptr list \<Rightarrow> 'a world \<Rightarrow> 'a world" where
  "run_entries app ctx fps w =
     \<lparr>mem = foldl (\<lambda>m f. entry_fn app f ctx m) (mem w) (filter (\<lambda>f. f \<noteq> NULL) fps),
      calls = calls w @ map EntryCall (filter (\<lambda>f. f \<noteq> NULL) fps)\<rparr>"

definition run_exits ::
  "('c, 'm, 'a) fsm_app \<Rightarrow> 'c \<Rightarrow> fptr list \<Rightarrow> 'a world \<Rightarrow> 'a world" where
  "run_exits app ctx fps w =
     \<lparr>mem = foldl (\<lambda>m f. exit_fn app f ctx m) (mem w) (filter (\<lambda>f. f \<noteq> NULL) fps),
      calls = calls w @ map ExitCall (filter (\<lambda>f. f \<noteq> NULL) fps)\<rparr>"

text \<open>
  The exit pointers of the states that the array \<open>ids\<close> names at the indices from
  \<open>hi\<close> down to \<open>lo\<close>, innermost first; an index whose id names no state of the
  graph contributes none.
\<close>

definition exit_fptrs :: "FSM_CB \<Rightarrow> int list \<Rightarrow> int \<Rightarrow> int \<Rightarrow> fptr list" where
  "exit_fptrs g ids hi lo =
     concat (map (\<lambda>i. case fsmGetState (listStates g) (ids ! i) of
                         None \<Rightarrow> [] | Some s \<Rightarrow> [fpExitAction s])
                 (rev [nat lo ..< nat (hi + 1)]))"

text \<open>
  Step C for a selected transition \<open>t\<close> of the state \<open>st\<close>: what \<open>_fsmExecuteState\<close>
  does from the point where the conditions of \<open>t\<close> have passed (fsm.c 1067-1099), with
  the out-parameters \<open>nid\<close> and \<open>sub\<close>.
\<close>

definition execute_selected ::
  "('c, 'm, 'a) fsm_app \<Rightarrow> ('c, 'm) FSM_EXECUTE_ARGS \<Rightarrow> FSM_STATE \<Rightarrow> FSM_TRANSITION \<Rightarrow> int
     \<Rightarrow> bool \<Rightarrow> 'a world \<Rightarrow> FSM_EXECUTION_RESULT \<times> int \<times> bool \<times> 'a world" where
  "execute_selected app args st t nid sub w =
     (case fsmExecuteTransition app args st t w of
        (r, w2) \<Rightarrow>
          if r = eFSM_RESULT_ACTION_FAILURE then
            (case fsmGetTransition (listTransitions st) FSM_CATCH_TRANSITION of
               None \<Rightarrow> (r, nid, sub, w2)
             | Some (ct, _) \<Rightarrow>
                 (case fsmExecuteTransition app args st ct w2 of
                    (r', w3) \<Rightarrow>
                      if r' = eFSM_RESULT_NEW_STATE then (r', iNewStateId ct, bSubState ct, w3)
                      else (r', nid, sub, w3)))
          else if r = eFSM_RESULT_NEW_STATE then (r, iNewStateId t, bSubState t, w2)
          else (r, nid, sub, w2))"

text \<open>
  What \<open>fsmExecute\<close> does after Step A and Step B have produced a result: the state
  change when the result is a new state, nothing otherwise.
\<close>

definition finish_execute ::
  "('c, 'm, 'a) fsm_app \<Rightarrow> FSM_CB \<Rightarrow> FSM_OBJECT_STATE \<Rightarrow> 'c \<Rightarrow> int
     \<Rightarrow> FSM_EXECUTION_RESULT \<times> int \<times> bool \<times> 'a world
     \<Rightarrow> fault + (FSM_EXECUTION_RESULT \<times> FSM_OBJECT_STATE \<times> 'a world)" where
  "finish_execute app g os ctx depth out =
     (case out of
        (r, nid, sub, w) \<Rightarrow>
          if r = eFSM_RESULT_NEW_STATE then fsmExecute_change app g os ctx r nid sub depth w
          else Inr (r, os, w))"

text \<open>
  The verifier's two violations, in the specification's words.  A state id is never
  entered when no transition of any state has it as target; it is never exited when
  no state with that id has a transition to a different id other than \<open>SAME\<close>.
\<close>

definition never_entered :: "FSM_CB \<Rightarrow> int \<Rightarrow> bool" where
  "never_entered g sid \<longleftrightarrow>
     (\<forall>s \<in> set (listStates g). \<forall>t \<in> set (listTransitions s). iNewStateId t \<noteq> sid)"

definition never_exited :: "FSM_CB \<Rightarrow> int \<Rightarrow> bool" where
  "never_exited g sid \<longleftrightarrow>
     (\<forall>s \<in> set (listStates g). iStateId s = sid \<longrightarrow>
        (\<forall>t \<in> set (listTransitions s). iNewStateId t = sid \<or> iNewStateId t = FSM_ST_SAME))"

text \<open>
  Every violation, in the order of the pass: a \<open>NoEntry\<close> for each state other than
  the any-state that is never entered, then a \<open>NoExit\<close> for each transition whose
  target is a concrete id that is never exited.
\<close>

definition verify_violations :: "FSM_CB \<Rightarrow> (int \<times> FSM_VERIFY_ERROR) list" where
  "verify_violations g =
     [(iStateId s, eFSM_VERIFY_ERROR_NOENTRY).
        s \<leftarrow> listStates g, iStateId s \<noteq> FSM_ST_ANY, never_entered g (iStateId s)]
     @ [(iNewStateId t, eFSM_VERIFY_ERROR_NOEXIT).
        s \<leftarrow> listStates g, t \<leftarrow> listTransitions s, 0 \<le> iNewStateId t,
        never_exited g (iNewStateId t)]"

text \<open>The calls of the verify callback for a list of violations, in order.\<close>

definition report_all ::
  "'v verify_cb \<Rightarrow> 'v \<Rightarrow> (int \<times> FSM_VERIFY_ERROR) list \<Rightarrow> 'v" where
  "report_all cb v xs = foldl (\<lambda>v (sid, err). call_verify_cb cb sid err v) v xs"

section \<open>Example applications, graphs and object states\<close>

text \<open>
  An application without memory: the condition and the action at address \<open>9\<close>
  return \<open>FSM_FALSE\<close>, every other one returns \<open>FSM_TRUE\<close>.
\<close>

definition app_ex :: "(unit, unit, unit) fsm_app" where
  "app_ex = \<lparr>condition_fn = (\<lambda>fp c m a. (fp \<noteq> 9, a)),
             action_fn = (\<lambda>fp c m a. (fp \<noteq> 9, a)),
             entry_fn = (\<lambda>fp c a. a), exit_fn = (\<lambda>fp c a. a)\<rparr>"

definition w_ex :: "unit world" where
  "w_ex = \<lparr>mem = (), calls = []\<rparr>"

text \<open>
  An application with memory: every callback appends its own address to the memory,
  a list of addresses.  The condition and the action at address \<open>9\<close> return
  \<open>FSM_FALSE\<close>, every other one returns \<open>FSM_TRUE\<close>.
\<close>

definition app_rec :: "(unit, unit, nat list) fsm_app" where
  "app_rec = \<lparr>condition_fn = (\<lambda>fp c m a. (fp \<noteq> 9, a @ [fp])),
              action_fn = (\<lambda>fp c m a. (fp \<noteq> 9, a @ [fp])),
              entry_fn = (\<lambda>fp c a. a @ [fp]), exit_fn = (\<lambda>fp c a. a @ [fp])\<rparr>"

definition w_rec :: "nat list world" where
  "w_rec = \<lparr>mem = [], calls = []\<rparr>"

text \<open>A state without transitions, as \<open>fsmCreateState\<close> leaves it.\<close>

definition st_plain :: "int \<Rightarrow> fptr \<Rightarrow> fptr \<Rightarrow> FSM_STATE" where
  "st_plain sid en ex =
     \<lparr>iStateId = sid, fpEntryAction = en, listTransitions = [], fpExitAction = ex,
      bComplex = False, iInitialSubStateId = FSM_ST_SAME\<rparr>"

text \<open>
  A nest of two states that both react to event \<open>7\<close>: the outer state \<open>1\<close> has a
  first candidate whose second condition fails and a second one that is enabled, the
  inner state \<open>2\<close> has an enabled transition too.
\<close>

definition st_outer :: FSM_STATE where
  "st_outer =
     \<lparr>iStateId = 1, fpEntryAction = 21,
      listTransitions =
        [\<lparr>iNewStateId = 5, bSubState = False, iEventId = 7, listConditions = [8, 9],
          listActions = [10]\<rparr>,
         \<lparr>iNewStateId = 3, bSubState = False, iEventId = 7, listConditions = [8],
          listActions = [11]\<rparr>],
      fpExitAction = 31, bComplex = True, iInitialSubStateId = 2\<rparr>"

definition st_inner :: FSM_STATE where
  "st_inner =
     \<lparr>iStateId = 2, fpEntryAction = 22,
      listTransitions =
        [\<lparr>iNewStateId = 4, bSubState = False, iEventId = 7, listConditions = [],
          listActions = [12]\<rparr>],
      fpExitAction = 32, bComplex = False, iInitialSubStateId = FSM_ST_SAME\<rparr>"

definition g_nest :: FSM_CB where
  "g_nest = \<lparr>listStates = [st_outer, st_inner, st_plain 3 23 33, st_plain 4 24 34],
             bCreateError = False\<rparr>"

definition os_nest :: FSM_OBJECT_STATE where
  "os_nest = \<lparr>iNestDepth = 1, iNestedStateIds = [1, 2, 0, 0], iPreviousStateId = 0\<rparr>"

text \<open>
  A graph for an object state with a gap: index \<open>1\<close> of \<open>os_gap\<close> holds the id
  \<open>99\<close>, which names no state.  The state at index \<open>0\<close> has a candidate for event
  \<open>7\<close> whose condition fails; the state at index \<open>2\<close> and the any-state both have
  an enabled transition for event \<open>7\<close>.
\<close>

definition st_blocked :: FSM_STATE where
  "st_blocked =
     \<lparr>iStateId = 1, fpEntryAction = 21,
      listTransitions =
        [\<lparr>iNewStateId = 2, bSubState = False, iEventId = 7, listConditions = [9],
          listActions = [10]\<rparr>],
      fpExitAction = 31, bComplex = False, iInitialSubStateId = FSM_ST_SAME\<rparr>"

definition st_any_enabled :: FSM_STATE where
  "st_any_enabled =
     \<lparr>iStateId = FSM_ST_ANY, fpEntryAction = NULL,
      listTransitions =
        [\<lparr>iNewStateId = 1, bSubState = False, iEventId = 7, listConditions = [],
          listActions = [13]\<rparr>],
      fpExitAction = NULL, bComplex = False, iInitialSubStateId = 0\<rparr>"

definition g_gap :: FSM_CB where
  "g_gap = \<lparr>listStates = [st_blocked, st_inner, st_any_enabled], bCreateError = False\<rparr>"

definition os_gap :: FSM_OBJECT_STATE where
  "os_gap = \<lparr>iNestDepth = 2, iNestedStateIds = [1, 99, 2, 0], iPreviousStateId = 0\<rparr>"

text \<open>
  An object state whose outermost index holds an id that names no state of \<open>g_nest\<close>.
\<close>

definition os_orphan :: FSM_OBJECT_STATE where
  "os_orphan = \<lparr>iNestDepth = 1, iNestedStateIds = [99, 2, 0, 0], iPreviousStateId = 0\<rparr>"

text \<open>
  A transition for event \<open>7\<close> whose second action fails, and a catch transition with
  a failing action of its own; states that carry one or both; an any-state that carries
  both.
\<close>

definition tr_failing :: FSM_TRANSITION where
  "tr_failing = \<lparr>iNewStateId = 2, bSubState = False, iEventId = 7, listConditions = [],
                  listActions = [10, 9, 11]\<rparr>"

definition tr_catch :: FSM_TRANSITION where
  "tr_catch = \<lparr>iNewStateId = 3, bSubState = False, iEventId = FSM_CATCH_TRANSITION,
                listConditions = [], listActions = [9, 14]\<rparr>"

definition st_failing :: FSM_STATE where
  "st_failing = (st_plain 4 24 34)\<lparr>listTransitions := [tr_failing]\<rparr>"

definition st_catching :: FSM_STATE where
  "st_catching = (st_plain 1 21 31)\<lparr>listTransitions := [tr_failing, tr_catch]\<rparr>"

definition st_any_catching :: FSM_STATE where
  "st_any_catching =
     \<lparr>iStateId = FSM_ST_ANY, fpEntryAction = NULL, listTransitions = [tr_failing, tr_catch],
      fpExitAction = NULL, bComplex = False, iInitialSubStateId = 0\<rparr>"

definition g_fail :: FSM_CB where
  "g_fail = \<lparr>listStates = [st_failing, st_plain 2 22 32], bCreateError = False\<rparr>"

definition g_any_catch :: FSM_CB where
  "g_any_catch = \<lparr>listStates = [st_plain 1 21 31, st_plain 2 22 32, st_plain 3 23 33,
                                 st_any_catching], bCreateError = False\<rparr>"

text \<open>The object state that \<open>fsmSetStartState\<close> gives for a start state.\<close>

definition os_at :: "int \<Rightarrow> FSM_OBJECT_STATE" where
  "os_at sid = \<lparr>iNestDepth = 0, iNestedStateIds = [sid, 0, 0, 0], iPreviousStateId = 0\<rparr>"

text \<open>
  A graph with a chain of complex states: \<open>1\<close> has the initial substate \<open>2\<close>,
  \<open>2\<close> has the initial substate \<open>3\<close>, \<open>3\<close> is not complex.  The state \<open>0\<close>
  goes to \<open>1\<close> on event \<open>7\<close>, and on the events \<open>8\<close> and \<open>9\<close> to the id
  \<open>99\<close>, which names no state: by a plain and by a sub-state transition.
\<close>

definition st_idle :: FSM_STATE where
  "st_idle = (st_plain 0 20 30)\<lparr>listTransitions :=
     [\<lparr>iNewStateId = 1, bSubState = False, iEventId = 7, listConditions = [],
       listActions = [10]\<rparr>,
      \<lparr>iNewStateId = 99, bSubState = False, iEventId = 8, listConditions = [],
       listActions = []\<rparr>,
      \<lparr>iNewStateId = 99, bSubState = True, iEventId = 9, listConditions = [],
       listActions = []\<rparr>]\<rparr>"

definition g_chain :: FSM_CB where
  "g_chain = \<lparr>listStates =
       [st_idle,
        (st_plain 1 21 31)\<lparr>bComplex := True, iInitialSubStateId := 2\<rparr>,
        (st_plain 2 22 32)\<lparr>bComplex := True, iInitialSubStateId := 3\<rparr>,
        st_plain 3 23 33],
     bCreateError = False\<rparr>"

text \<open>
  A graph whose state \<open>0\<close> has a sub-state transition to the state \<open>5\<close> on event
  \<open>9\<close> and a sub-state transition to the parent on event \<open>6\<close>, as two calls of
  \<open>fsmTransitionSub\<close> build them.
\<close>

definition st_pusher :: FSM_STATE where
  "st_pusher = (st_plain 0 20 30)\<lparr>listTransitions :=
     [\<lparr>iNewStateId = 5, bSubState = True, iEventId = 9, listConditions = [],
       listActions = []\<rparr>,
      \<lparr>iNewStateId = FSM_ST_PARENT, bSubState = True, iEventId = 6, listConditions = [],
       listActions = []\<rparr>]\<rparr>"

definition g_push :: FSM_CB where
  "g_push = \<lparr>listStates = [st_pusher, st_plain 5 25 35], bCreateError = False\<rparr>"

section \<open>The transition search\<close>

lemma fsmExecuteState_loop_Nil:
  "fsmExecuteState_loop app args st [] r lpT w = (r, lpT, w)"
  by (subst fsmExecuteState_loop.simps) simp

lemma fsmExecuteState_loop_skip:
  "iEventId t \<noteq> argEventId args \<Longrightarrow>
     fsmExecuteState_loop app args st (t # ts) r lpT w =
       fsmExecuteState_loop app args st ts r lpT w"
  by (subst fsmExecuteState_loop.simps, subst (2) fsmExecuteState_loop.simps) simp

lemma fsmExecuteState_loop_candidate:
  "iEventId t = argEventId args \<Longrightarrow>
     fsmExecuteState_loop app args st (t # ts) r lpT w =
       (case conditions_loop app args (listConditions t) w of
          (l_bConditionsPass, w1) \<Rightarrow>
            if \<not> l_bConditionsPass
            then fsmExecuteState_loop app args st ts r (Some t) w1
            else
              (case fsmExecuteTransition app args st t w1 of
                 (r, w2) \<Rightarrow>
                   if eFSM_RESULT_ACTION_FAILURE = r then
                     (case fsmGetTransition (listTransitions st) FSM_CATCH_TRANSITION of
                        None \<Rightarrow> (r, None, w2)
                      | Some (ct, _) \<Rightarrow>
                          (case fsmExecuteTransition app args st ct w2 of
                             (r', w3) \<Rightarrow> (r', Some ct, w3)))
                   else (r, Some t, w2)))"
  by (subst fsmExecuteState_loop.simps) simp

lemma fsmExecuteTransition_cases:
  "fst (fsmExecuteTransition app args st t w) \<in>
     {eFSM_RESULT_ACTION_FAILURE, eFSM_RESULT_NO_CHANGE, eFSM_RESULT_NEW_STATE}"
  by (simp add: fsmExecuteTransition_def split: prod.splits)

text \<open>
  The loop of \<open>_fsmExecuteState\<close> is the search of Step A followed by Step C on the
  transition found.
\<close>

lemma fsmExecuteState_loop_select:
  "fsmExecuteState_out nid sub
       (fsmExecuteState_loop app args st ts eFSM_RESULT_NO_TRANSITION lpT w) =
     (case select_transition app args ts w of
        (None, w') \<Rightarrow> Inr (eFSM_RESULT_NO_TRANSITION, nid, sub, w')
      | (Some t, w1) \<Rightarrow> Inr (execute_selected app args st t nid sub w1))"
proof (induction ts arbitrary: lpT w)
  case Nil
  show ?case by (simp add: fsmExecuteState_loop_Nil fsmExecuteState_out_def)
next
  case (Cons t ts)
  show ?case
  proof (cases "iEventId t = argEventId args")
    case False
    then show ?thesis by (simp add: fsmExecuteState_loop_skip Cons.IH)
  next
    case True
    obtain b w1 where c: "conditions_loop app args (listConditions t) w = (b, w1)"
      by (cases "conditions_loop app args (listConditions t) w")
    show ?thesis
    proof (cases b)
      case False
      with True c show ?thesis by (simp add: fsmExecuteState_loop_candidate Cons.IH)
    next
      case pass: True
      obtain r w2 where e: "fsmExecuteTransition app args st t w1 = (r, w2)"
        by (cases "fsmExecuteTransition app args st t w1")
      have r: "r = eFSM_RESULT_ACTION_FAILURE \<or> r = eFSM_RESULT_NO_CHANGE
                 \<or> r = eFSM_RESULT_NEW_STATE"
        using fsmExecuteTransition_cases [of app args st t w1] e by simp
      show ?thesis
      proof (cases "fsmGetTransition (listTransitions st) FSM_CATCH_TRANSITION")
        case None
        with True c pass e r show ?thesis
          by (auto simp: fsmExecuteState_loop_candidate fsmExecuteState_out_def
                execute_selected_def)
      next
        case (Some p)
        obtain ct rest where p: "p = (ct, rest)" by (cases p)
        obtain r' w3 where e': "fsmExecuteTransition app args st ct w2 = (r', w3)"
          by (cases "fsmExecuteTransition app args st ct w2")
        from Some p True c pass e r e' show ?thesis
          by (auto simp: fsmExecuteState_loop_candidate fsmExecuteState_out_def
                execute_selected_def)
      qed
    qed
  qed
qed

lemma fsmExecuteState_select:
  "fsmExecuteState app args st nid sub w =
     (case select_transition app args (listTransitions st) w of
        (None, w') \<Rightarrow> Inr (eFSM_RESULT_NO_TRANSITION, nid, sub, w')
      | (Some t, w1) \<Rightarrow> Inr (execute_selected app args st t nid sub w1))"
  by (simp add: fsmExecuteState_def fsmExecuteState_loop_select)

lemma execute_selected_matched:
  "fst (execute_selected app args st t nid sub w) \<noteq> eFSM_RESULT_NO_TRANSITION"
  using fsmExecuteTransition_cases [of app args st t w]
  by (auto simp: execute_selected_def fsmExecuteTransition_def split: prod.splits option.splits)

text \<open>One round of the nest scan, at an index that names a state of the graph.\<close>

lemma fsmExecute_scan_step:
  assumes "int k \<le> iNestDepth os" "k < 4" "k < length (iNestedStateIds os)"
    and "fsmGetState (listStates g) (iNestedStateIds os ! k) = Some s"
  shows "fsmExecute_scan app g os args (int k) nid sub w =
     (case select_transition app args (listTransitions s) w of
        (None, w') \<Rightarrow> fsmExecute_scan app g os args (int (Suc k)) nid sub w'
      | (Some t, w1) \<Rightarrow>
          (case execute_selected app args s t nid sub w1 of
             (r, nid', sub', w2) \<Rightarrow> Inr (ScanEnd r nid' sub' (int k) w2)))"
proof (cases "select_transition app args (listTransitions s) w")
  case (Pair sel w1)
  show ?thesis
  proof (cases sel)
    case None
    with Pair assms show ?thesis
      by (subst fsmExecute_scan.simps)
         (simp add: nest_read_def fsmExecuteState_select add.commute)
  next
    case (Some t)
    obtain r nid' sub' w2
      where e: "execute_selected app args s t nid sub w1 = (r, nid', sub', w2)"
      by (cases "execute_selected app args s t nid sub w1")
    have "r \<noteq> eFSM_RESULT_NO_TRANSITION"
      using execute_selected_matched [of app args s t nid sub w1] e by simp
    with Some Pair assms e show ?thesis
      by (subst fsmExecute_scan.simps) (simp add: nest_read_def fsmExecuteState_select)
  qed
qed

text \<open>
  The nest scan over a run of indices that all name states of the graph, from the
  index \<open>k\<close> on.
\<close>

lemma fsmExecute_scan_select:
  assumes "\<forall>j < length sts.
             fsmGetState (listStates g) (iNestedStateIds os ! (k + j)) = Some (sts ! j)"
    and "k + length sts \<le> length (iNestedStateIds os)" "k + length sts \<le> 4"
    and "int (k + length sts) \<le> iNestDepth os + 1"
  shows "fsmExecute_scan app g os args (int k) nid sub w =
     (case select_nest app args sts k w of
        (None, w') \<Rightarrow> fsmExecute_scan app g os args (int (k + length sts)) nid sub w'
      | (Some (i, s, t), w1) \<Rightarrow>
          (case execute_selected app args s t nid sub w1 of
             (r, nid', sub', w2) \<Rightarrow> Inr (ScanEnd r nid' sub' (int i) w2)))"
  using assms
proof (induction sts arbitrary: k w)
  case Nil
  show ?case by simp
next
  case (Cons s ss)
  from Cons.prems(1) have s: "fsmGetState (listStates g) (iNestedStateIds os ! k) = Some s"
    by (metis add.right_neutral length_greater_0_conv list.distinct(1) nth_Cons_0)
  have rest: "\<forall>j < length ss.
      fsmGetState (listStates g) (iNestedStateIds os ! (Suc k + j)) = Some (ss ! j)"
  proof (intro allI impI)
    fix j assume "j < length ss"
    then have "Suc j < length (s # ss)" by simp
    with Cons.prems(1)
    have "fsmGetState (listStates g) (iNestedStateIds os ! (k + Suc j)) = Some ((s # ss) ! Suc j)"
      by blast
    then show "fsmGetState (listStates g) (iNestedStateIds os ! (Suc k + j)) = Some (ss ! j)"
      by simp
  qed
  have step: "fsmExecute_scan app g os args (int k) nid sub w =
     (case select_transition app args (listTransitions s) w of
        (None, w') \<Rightarrow> fsmExecute_scan app g os args (int (Suc k)) nid sub w'
      | (Some t, w1) \<Rightarrow>
          (case execute_selected app args s t nid sub w1 of
             (r, nid', sub', w2) \<Rightarrow> Inr (ScanEnd r nid' sub' (int k) w2)))"
    using Cons.prems s by (intro fsmExecute_scan_step) auto
  have ih: "fsmExecute_scan app g os args (int (Suc k)) nid sub w' =
     (case select_nest app args ss (Suc k) w' of
        (None, w'') \<Rightarrow> fsmExecute_scan app g os args (int (Suc k + length ss)) nid sub w''
      | (Some (i, s, t), w1) \<Rightarrow>
          (case execute_selected app args s t nid sub w1 of
             (r, nid', sub', w2) \<Rightarrow> Inr (ScanEnd r nid' sub' (int i) w2)))" for w'
    using Cons.prems rest by (intro Cons.IH) auto
  show ?case
    by (simp add: step ih split: prod.splits option.splits del: of_nat_Suc of_nat_add)
qed

text \<open>The any-state fallback is Step A and Step C on the any-state.\<close>

lemma fsmExecute_any_select:
  "fsmExecute_any app g args eFSM_RESULT_NO_TRANSITION nid sub w =
     (case fsmGetState (listStates g) FSM_ST_ANY of
        None \<Rightarrow> Inr (eFSM_RESULT_NO_TRANSITION, nid, sub, w)
      | Some sAny \<Rightarrow>
          (case select_transition app args (listTransitions sAny) w of
             (None, w') \<Rightarrow> Inr (eFSM_RESULT_NO_TRANSITION, nid, sub, w')
           | (Some t, w1) \<Rightarrow> Inr (execute_selected app args sAny t nid sub w1)))"
  by (simp add: fsmExecute_any_def fsmExecuteState_select split: option.splits)

lemma fsmExecute_any_matched:
  "r \<noteq> eFSM_RESULT_NO_TRANSITION \<Longrightarrow>
     fsmExecute_any app g args r nid sub w = Inr (r, nid, sub, w)"
  by (auto simp: fsmExecute_any_def)

text \<open>
  Every well-formed object state has a run of states \<open>sts\<close> at its nest indices from
  \<open>0\<close> on that either covers all the active indices or ends before the first index
  whose id names no state of the graph.
\<close>

lemma named_prefix_exists:
  "\<exists>sts. length sts \<le> n
      \<and> (\<forall>j < length sts. fsmGetState (listStates g) (ids ! j) = Some (sts ! j))
      \<and> (length sts = n \<or> fsmGetState (listStates g) (ids ! length sts) = None)"
proof (induction n)
  case 0
  show ?case by simp
next
  case (Suc n)
  then obtain sts where p: "length sts \<le> n"
      "\<forall>j < length sts. fsmGetState (listStates g) (ids ! j) = Some (sts ! j)"
      "length sts = n \<or> fsmGetState (listStates g) (ids ! length sts) = None"
    by blast
  show ?case
  proof (cases "fsmGetState (listStates g) (ids ! length sts)")
    case None
    with p show ?thesis by (intro exI [of _ sts]) simp
  next
    case (Some s)
    with p(3) have n: "length sts = n" by simp
    have "\<forall>j < length (sts @ [s]).
        fsmGetState (listStates g) (ids ! j) = Some ((sts @ [s]) ! j)"
      using p(2) Some by (simp add: nth_append less_Suc_eq)
    with n show ?thesis by (intro exI [of _ "sts @ [s]"]) simp
  qed
qed

text \<open>
  \<open>fsmExecute\<close> on a well-formed object state.  \<open>sts\<close> are the states at the nest
  indices from \<open>0\<close> on, as far as the scan goes: up to a match, or up to the first
  index whose id names no state, or all the active indices.  Step A over the nest;
  then the \<open>return\<close> of fsm.c 1149 if the scan met an id that names no state, and
  otherwise Step B on the any-state; then the end of the call.
\<close>

lemma fsmExecute_search:
  assumes ok: "object_state_ok os" and ev: "ev \<noteq> FSM_CATCH_TRANSITION"
    and len: "length sts \<le> nat (iNestDepth os) + 1"
    and sts: "\<forall>j < length sts. fsmGetState (listStates g) (iNestedStateIds os ! j) = Some (sts ! j)"
    and stop: "length sts = nat (iNestDepth os) + 1
               \<or> fst (select_nest app \<lparr>argEventId = ev, AppContext = ctx, pAppMsg = msg\<rparr> sts 0 w) \<noteq> None
               \<or> fsmGetState (listStates g) (iNestedStateIds os ! length sts) = None"
  shows "fsmExecute app (Some g) os ev ctx msg w =
     (case select_nest app \<lparr>argEventId = ev, AppContext = ctx, pAppMsg = msg\<rparr> sts 0 w of
        (Some (i, s, t), w1) \<Rightarrow>
          finish_execute app g os ctx (int i)
            (execute_selected app \<lparr>argEventId = ev, AppContext = ctx, pAppMsg = msg\<rparr> s t (- 1) False w1)
      | (None, w') \<Rightarrow>
          if length sts = nat (iNestDepth os) + 1 then
            (case fsmGetState (listStates g) FSM_ST_ANY of
               None \<Rightarrow> Inr (eFSM_RESULT_NO_TRANSITION, os, w')
             | Some sAny \<Rightarrow>
                 (case select_transition app \<lparr>argEventId = ev, AppContext = ctx, pAppMsg = msg\<rparr>
                         (listTransitions sAny) w' of
                    (None, w'') \<Rightarrow> Inr (eFSM_RESULT_NO_TRANSITION, os, w'')
                  | (Some t, w1) \<Rightarrow>
                      finish_execute app g os ctx 0
                        (execute_selected app \<lparr>argEventId = ev, AppContext = ctx, pAppMsg = msg\<rparr>
                           sAny t (- 1) False w1)))
          else Inr (eFSM_RESULT_NO_TRANSITION, os, w'))"
proof -
  let ?args = "\<lparr>argEventId = ev, AppContext = ctx, pAppMsg = msg\<rparr>"
  from ok have wf: "length (iNestedStateIds os) = 4" "0 \<le> iNestDepth os" "iNestDepth os < 4"
    by (simp_all add: object_state_ok_def)
  have scan: "fsmExecute_scan app g os ?args (int 0) (- 1) False w =
     (case select_nest app ?args sts 0 w of
        (None, w') \<Rightarrow> fsmExecute_scan app g os ?args (int (0 + length sts)) (- 1) False w'
      | (Some (i, s, t), w1) \<Rightarrow>
          (case execute_selected app ?args s t (- 1) False w1 of
             (r, nid', sub', w2) \<Rightarrow> Inr (ScanEnd r nid' sub' (int i) w2)))"
    using wf len sts by (intro fsmExecute_scan_select) auto
  obtain sel w1 where sel: "select_nest app ?args sts 0 w = (sel, w1)"
    by (cases "select_nest app ?args sts 0 w")
  show ?thesis
  proof (cases sel)
    case None
    show ?thesis
    proof (cases "length sts = nat (iNestDepth os) + 1")
      case True
      have past: "fsmExecute_scan app g os ?args (int (0 + length sts)) (- 1) False w1 =
          Inr (ScanEnd eFSM_RESULT_NO_TRANSITION (- 1) False 0 w1)"
        using wf True by (subst fsmExecute_scan.simps) simp
      with sel None scan have "fsmExecute_scan app g os ?args 0 (- 1) False w =
          Inr (ScanEnd eFSM_RESULT_NO_TRANSITION (- 1) False 0 w1)"
        by simp
      with sel None ev True show ?thesis
        by (auto simp: fsmExecute_def fsmExecute_any_select finish_execute_def
                 split: option.splits prod.splits)
    next
      case False
      with stop sel None
      have missing: "fsmGetState (listStates g) (iNestedStateIds os ! length sts) = None"
        by simp
      from False len wf have i: "int (length sts) \<le> iNestDepth os" "length sts < 4"
        by simp_all
      have "fsmExecute_scan app g os ?args (int (0 + length sts)) (- 1) False w1 =
          Inr (ScanReturn w1)"
        using i wf missing by (subst fsmExecute_scan.simps) (simp add: nest_read_def)
      with sel None scan have "fsmExecute_scan app g os ?args 0 (- 1) False w =
          Inr (ScanReturn w1)"
        by simp
      with sel None ev False show ?thesis by (simp add: fsmExecute_def)
    qed
  next
    case (Some p)
    obtain i s t where p: "p = (i, s, t)" by (cases p)
    obtain r nid' sub' w2 where e: "execute_selected app ?args s t (- 1) False w1 = (r, nid', sub', w2)"
      by (cases "execute_selected app ?args s t (- 1) False w1")
    have r: "r \<noteq> eFSM_RESULT_NO_TRANSITION"
      using execute_selected_matched [of app ?args s t "- 1" False w1] e by simp
    from sel scan Some p e have "fsmExecute_scan app g os ?args 0 (- 1) False w =
        Inr (ScanEnd r nid' sub' (int i) w2)"
      by simp
    with sel Some p e r ev show ?thesis
      by (simp add: fsmExecute_def fsmExecute_any_matched finish_execute_def)
  qed
qed

lemmas ex_defs = app_ex_def w_ex_def app_rec_def w_rec_def st_plain_def st_outer_def st_inner_def g_nest_def
  os_nest_def st_blocked_def st_any_enabled_def g_gap_def os_gap_def os_orphan_def
  tr_failing_def tr_catch_def st_failing_def st_catching_def st_any_catching_def g_fail_def
  g_any_catch_def os_at_def st_idle_def g_chain_def st_pusher_def g_push_def

lemmas run_defs = fsmExecute_def fsmExecute_scan.simps fsmExecuteState_def
  fsmExecuteState_out_def fsmExecuteState_loop.simps fsmExecuteTransition_def
  fsmExecute_any_def fsmExecute_change_def fsmExecute_exit.simps fsmExecute_entry_def
  fsmExecute_entry_loop.simps nest_read_def nest_write_def call_condition_def
  call_action_def call_entry_def call_exit_def enter_state_def exit_state_def

text \<open>
  Claim C1, as the code has it.  Let the object state be well formed with nest depth
  \<open>d\<close> and let the event not be the catch sentinel.  The scan of the nest indices
  goes outermost first and ends at the first index whose id names no state of the
  graph: \<open>sts\<close> lists the states at the indices from \<open>0\<close> on as far as the scan
  goes, that is up to a match, or up to the first index whose id names no state, or
  over all the indices \<open>0..d\<close> (by \<open>named_prefix_exists\<close> there is such a list
  for every object state).  Then the transition that \<open>fsmExecute\<close> selects is the
  one found by going through these states outermost first and, within each state,
  through the transitions with this event id in declaration order, skipping those
  whose condition chain fails: the call is Step C and the end of the call applied to
  that first match and its index.  Without a match, the call returns \<open>NoTransition\<close>
  when the scan has ended at an id that names no state, and falls back to the
  any-state when it has gone through all the indices.  In particular, when the
  outermost state has an enabled transition, that one is selected, whatever the inner
  states offer.
\<close>

theorem fsmExecute_transition_search:
  assumes ok: "object_state_ok os" and ev: "ev \<noteq> FSM_CATCH_TRANSITION"
    and len: "length sts \<le> nat (iNestDepth os) + 1"
    and sts: "\<forall>j < length sts. fsmGetState (listStates g) (iNestedStateIds os ! j) = Some (sts ! j)"
    and stop: "length sts = nat (iNestDepth os) + 1
               \<or> fst (select_nest app \<lparr>argEventId = ev, AppContext = ctx, pAppMsg = msg\<rparr> sts 0 w) \<noteq> None
               \<or> fsmGetState (listStates g) (iNestedStateIds os ! length sts) = None"
  shows "fsmExecute app (Some g) os ev ctx msg w =
     (case select_nest app \<lparr>argEventId = ev, AppContext = ctx, pAppMsg = msg\<rparr> sts 0 w of
        (Some (i, s, t), w1) \<Rightarrow>
          finish_execute app g os ctx (int i)
            (execute_selected app \<lparr>argEventId = ev, AppContext = ctx, pAppMsg = msg\<rparr> s t (- 1) False w1)
      | (None, w') \<Rightarrow>
          if length sts = nat (iNestDepth os) + 1 then
            (case fsmGetState (listStates g) FSM_ST_ANY of
               None \<Rightarrow> Inr (eFSM_RESULT_NO_TRANSITION, os, w')
             | Some sAny \<Rightarrow>
                 (case select_transition app \<lparr>argEventId = ev, AppContext = ctx, pAppMsg = msg\<rparr>
                         (listTransitions sAny) w' of
                    (None, w'') \<Rightarrow> Inr (eFSM_RESULT_NO_TRANSITION, os, w'')
                  | (Some t, w1) \<Rightarrow>
                      finish_execute app g os ctx 0
                        (execute_selected app \<lparr>argEventId = ev, AppContext = ctx, pAppMsg = msg\<rparr>
                           sAny t (- 1) False w1)))
          else Inr (eFSM_RESULT_NO_TRANSITION, os, w'))
    \<and> (\<forall>s0 rest t0 w1.
          sts = s0 # rest \<longrightarrow>
          select_transition app \<lparr>argEventId = ev, AppContext = ctx, pAppMsg = msg\<rparr>
              (listTransitions s0) w = (Some t0, w1) \<longrightarrow>
          fsmExecute app (Some g) os ev ctx msg w =
            finish_execute app g os ctx 0
              (execute_selected app \<lparr>argEventId = ev, AppContext = ctx, pAppMsg = msg\<rparr>
                 s0 t0 (- 1) False w1))"
proof (intro conjI allI impI)
  show "fsmExecute app (Some g) os ev ctx msg w =
     (case select_nest app \<lparr>argEventId = ev, AppContext = ctx, pAppMsg = msg\<rparr> sts 0 w of
        (Some (i, s, t), w1) \<Rightarrow>
          finish_execute app g os ctx (int i)
            (execute_selected app \<lparr>argEventId = ev, AppContext = ctx, pAppMsg = msg\<rparr> s t (- 1) False w1)
      | (None, w') \<Rightarrow>
          if length sts = nat (iNestDepth os) + 1 then
            (case fsmGetState (listStates g) FSM_ST_ANY of
               None \<Rightarrow> Inr (eFSM_RESULT_NO_TRANSITION, os, w')
             | Some sAny \<Rightarrow>
                 (case select_transition app \<lparr>argEventId = ev, AppContext = ctx, pAppMsg = msg\<rparr>
                         (listTransitions sAny) w' of
                    (None, w'') \<Rightarrow> Inr (eFSM_RESULT_NO_TRANSITION, os, w'')
                  | (Some t, w1) \<Rightarrow>
                      finish_execute app g os ctx 0
                        (execute_selected app \<lparr>argEventId = ev, AppContext = ctx, pAppMsg = msg\<rparr>
                           sAny t (- 1) False w1)))
          else Inr (eFSM_RESULT_NO_TRANSITION, os, w'))"
    by (rule fsmExecute_search [OF ok ev len sts stop])
next
  fix s0 rest t0 w1
  assume c: "sts = s0 # rest"
    and sel: "select_transition app \<lparr>argEventId = ev, AppContext = ctx, pAppMsg = msg\<rparr>
              (listTransitions s0) w = (Some t0, w1)"
  then show "fsmExecute app (Some g) os ev ctx msg w =
            finish_execute app g os ctx 0
              (execute_selected app \<lparr>argEventId = ev, AppContext = ctx, pAppMsg = msg\<rparr>
                 s0 t0 (- 1) False w1)"
    by (simp add: fsmExecute_search [OF ok ev len sts stop])
qed

text \<open>
  Three runs on the application with memory.  On \<open>os_nest\<close> both active states have
  an enabled transition for event \<open>7\<close>; the outer state's first candidate is skipped
  (its condition \<open>8\<close> holds, its condition \<open>9\<close> fails), its second one is
  selected, and the inner state is not consulted.  On the object state with the array
  \<open>[0, 99, 0, 0]\<close> and depth \<open>1\<close>, which \<open>fsmExecute\<close> itself leaves after a
  sub-state transition to the id \<open>99\<close>, the match is at index \<open>0\<close>, before the
  index that names no state.  On \<open>os_gap\<close> the state at index \<open>0\<close> has no match
  and the id at index \<open>1\<close> names no state: nothing is selected.
\<close>

theorem fsmExecute_transition_search_witness:
  "object_state_ok os_nest \<and> (7 :: int) \<noteq> FSM_CATCH_TRANSITION
   \<and> length [st_outer, st_inner] = nat (iNestDepth os_nest) + 1
   \<and> fsmGetState (listStates g_nest) (iNestedStateIds os_nest ! 0) = Some st_outer
   \<and> fsmGetState (listStates g_nest) (iNestedStateIds os_nest ! 1) = Some st_inner
   \<and> select_transition app_rec \<lparr>argEventId = 7, AppContext = (), pAppMsg = ()\<rparr>
        (listTransitions st_inner) w_rec
       = (Some \<lparr>iNewStateId = 4, bSubState = False, iEventId = 7, listConditions = [],
                listActions = [12]\<rparr>, w_rec)
   \<and> fsmExecute app_rec (Some g_nest) os_nest 7 () () w_rec =
       Inr (eFSM_RESULT_NEW_STATE,
            \<lparr>iNestDepth = 0, iNestedStateIds = [3, 2, 0, 0], iPreviousStateId = 2\<rparr>,
            \<lparr>mem = [8, 9, 8, 11, 32, 31, 23],
             calls = [CondCall 8, CondCall 9, CondCall 8, ActionCall 11, ExitCall 32,
                      ExitCall 31, EntryCall 23]\<rparr>)
   \<and> object_state_ok \<lparr>iNestDepth = 1, iNestedStateIds = [0, 99, 0, 0], iPreviousStateId = 0\<rparr>
   \<and> length [st_idle] \<le> nat (iNestDepth
        \<lparr>iNestDepth = 1, iNestedStateIds = [0, 99, 0, 0], iPreviousStateId = 0\<rparr>) + 1
   \<and> fsmGetState (listStates g_chain) 0 = Some st_idle
   \<and> fsmGetState (listStates g_chain) 99 = None
   \<and> select_nest app_rec \<lparr>argEventId = 7, AppContext = (), pAppMsg = ()\<rparr> [st_idle] 0 w_rec
       = (Some (0, st_idle,
                \<lparr>iNewStateId = 1, bSubState = False, iEventId = 7, listConditions = [],
                 listActions = [10]\<rparr>), w_rec)
   \<and> fsmExecute app_rec (Some g_chain)
        \<lparr>iNestDepth = 1, iNestedStateIds = [0, 99, 0, 0], iPreviousStateId = 0\<rparr> 7 () () w_rec =
       Inr (eFSM_RESULT_NEW_STATE,
            \<lparr>iNestDepth = 2, iNestedStateIds = [1, 2, 3, 0], iPreviousStateId = 99\<rparr>,
            \<lparr>mem = [10, 30, 21, 22, 23],
             calls = [ActionCall 10, ExitCall 30, EntryCall 21, EntryCall 22, EntryCall 23]\<rparr>)
   \<and> object_state_ok os_gap
   \<and> length [st_blocked] \<le> nat (iNestDepth os_gap) + 1
   \<and> fsmGetState (listStates g_gap) (iNestedStateIds os_gap ! 0) = Some st_blocked
   \<and> fsmGetState (listStates g_gap) (iNestedStateIds os_gap ! length [st_blocked]) = None
   \<and> fsmExecute app_rec (Some g_gap) os_gap 7 () () w_rec =
       Inr (eFSM_RESULT_NO_TRANSITION, os_gap, \<lparr>mem = [9], calls = [CondCall 9]\<rparr>)"
proof -
  let ?args = "\<lparr>argEventId = 7, AppContext = (), pAppMsg = ()\<rparr> :: (unit, unit) FSM_EXECUTE_ARGS"
  let ?os = "\<lparr>iNestDepth = 1, iNestedStateIds = [0, 99, 0, 0], iPreviousStateId = 0\<rparr>"
  have ok: "object_state_ok os_nest"
    by (simp add: object_state_ok_def os_nest_def)
  have ev: "(7 :: int) \<noteq> FSM_CATCH_TRANSITION" by simp
  have len: "length [st_outer, st_inner] = nat (iNestDepth os_nest) + 1"
    by (simp add: os_nest_def)
  have len': "length [st_outer, st_inner] \<le> nat (iNestDepth os_nest) + 1"
    by (simp add: os_nest_def)
  have sts: "\<forall>j < length [st_outer, st_inner].
        fsmGetState (listStates g_nest) (iNestedStateIds os_nest ! j) = Some ([st_outer, st_inner] ! j)"
    by (simp add: ex_defs less_Suc_eq)
  have stop: "length [st_outer, st_inner] = nat (iNestDepth os_nest) + 1
      \<or> fst (select_nest app_rec ?args [st_outer, st_inner] 0 w_rec) \<noteq> None
      \<or> fsmGetState (listStates g_nest) (iNestedStateIds os_nest ! length [st_outer, st_inner])
           = None"
    using len by blast
  have inner: "select_transition app_rec ?args (listTransitions st_inner) w_rec
       = (Some \<lparr>iNewStateId = 4, bSubState = False, iEventId = 7, listConditions = [],
                listActions = [12]\<rparr>, w_rec)"
    by (simp add: ex_defs)
  have run: "fsmExecute app_rec (Some g_nest) os_nest 7 () () w_rec =
       Inr (eFSM_RESULT_NEW_STATE,
            \<lparr>iNestDepth = 0, iNestedStateIds = [3, 2, 0, 0], iPreviousStateId = 2\<rparr>,
            \<lparr>mem = [8, 9, 8, 11, 32, 31, 23],
             calls = [CondCall 8, CondCall 9, CondCall 8, ActionCall 11, ExitCall 32,
                      ExitCall 31, EntryCall 23]\<rparr>)"
    using fsmExecute_transition_search [OF ok ev len' sts stop]
    by (simp add: ex_defs finish_execute_def execute_selected_def run_defs)
  have s0: "fsmGetState (listStates g_nest) (iNestedStateIds os_nest ! 0) = Some st_outer"
    and s1: "fsmGetState (listStates g_nest) (iNestedStateIds os_nest ! 1) = Some st_inner"
    by (simp_all add: ex_defs)
  have ok2: "object_state_ok ?os" by (simp add: object_state_ok_def)
  have len2: "length [st_idle] \<le> nat (iNestDepth ?os) + 1" by simp
  have sts2: "\<forall>j < length [st_idle].
        fsmGetState (listStates g_chain) (iNestedStateIds ?os ! j) = Some ([st_idle] ! j)"
    by (simp add: ex_defs)
  have i0: "fsmGetState (listStates g_chain) 0 = Some st_idle"
    and i1: "fsmGetState (listStates g_chain) 99 = None"
    by (simp_all add: ex_defs)
  have sel2: "select_nest app_rec ?args [st_idle] 0 w_rec
       = (Some (0, st_idle,
                \<lparr>iNewStateId = 1, bSubState = False, iEventId = 7, listConditions = [],
                 listActions = [10]\<rparr>), w_rec)"
    by (simp add: ex_defs)
  have stop2: "length [st_idle] = nat (iNestDepth ?os) + 1
      \<or> fst (select_nest app_rec ?args [st_idle] 0 w_rec) \<noteq> None
      \<or> fsmGetState (listStates g_chain) (iNestedStateIds ?os ! length [st_idle]) = None"
    using sel2 by simp
  have run2: "fsmExecute app_rec (Some g_chain) ?os 7 () () w_rec =
       Inr (eFSM_RESULT_NEW_STATE,
            \<lparr>iNestDepth = 2, iNestedStateIds = [1, 2, 3, 0], iPreviousStateId = 99\<rparr>,
            \<lparr>mem = [10, 30, 21, 22, 23],
             calls = [ActionCall 10, ExitCall 30, EntryCall 21, EntryCall 22, EntryCall 23]\<rparr>)"
    using fsmExecute_transition_search [OF ok2 ev len2 sts2 stop2] sel2
    by (simp add: ex_defs finish_execute_def execute_selected_def run_defs)
  have ok3: "object_state_ok os_gap" by (simp add: object_state_ok_def os_gap_def)
  have len3: "length [st_blocked] \<le> nat (iNestDepth os_gap) + 1" by (simp add: os_gap_def)
  have sts3: "\<forall>j < length [st_blocked].
        fsmGetState (listStates g_gap) (iNestedStateIds os_gap ! j) = Some ([st_blocked] ! j)"
    by (simp add: ex_defs)
  have g0: "fsmGetState (listStates g_gap) (iNestedStateIds os_gap ! 0) = Some st_blocked"
    by (simp add: ex_defs)
  have g1: "fsmGetState (listStates g_gap) (iNestedStateIds os_gap ! length [st_blocked]) = None"
    by (simp add: ex_defs)
  have stop3: "length [st_blocked] = nat (iNestDepth os_gap) + 1
      \<or> fst (select_nest app_rec ?args [st_blocked] 0 w_rec) \<noteq> None
      \<or> fsmGetState (listStates g_gap) (iNestedStateIds os_gap ! length [st_blocked]) = None"
    using g1 by blast
  have sel3: "select_nest app_rec ?args [st_blocked] 0 w_rec
       = (None, \<lparr>mem = [9], calls = [CondCall 9]\<rparr>)"
    by (simp add: ex_defs call_condition_def)
  have d3: "length [st_blocked] \<noteq> nat (iNestDepth os_gap) + 1" by (simp add: os_gap_def)
  have run3: "fsmExecute app_rec (Some g_gap) os_gap 7 () () w_rec =
       Inr (eFSM_RESULT_NO_TRANSITION, os_gap, \<lparr>mem = [9], calls = [CondCall 9]\<rparr>)"
    using fsmExecute_transition_search [OF ok3 ev len3 sts3 stop3] sel3 d3
    by simp
  from ok ev len s0 s1 inner run ok2 len2 i0 i1 sel2 run2 ok3 len3 g0 g1 run3
  show ?thesis by blast
qed

text \<open>
  The claim C1 as stated, for every object state, fails: index \<open>0\<close> of
  \<open>os_orphan\<close> holds the id \<open>99\<close>, which names no state of \<open>g_nest\<close>, and
  index \<open>1\<close> holds the state \<open>2\<close>, whose transition for event \<open>7\<close> is
  enabled and is the first such transition in the order of the scan.  It is not
  selected: the scan ends at index \<open>0\<close> (fsm.c 1148-1149) and the call returns
  \<open>NoTransition\<close>.
\<close>

theorem fsmExecute_transition_search_counterexample:
  "fsmGetState (listStates g_nest) (iNestedStateIds os_orphan ! 0) = None
   \<and> fsmGetState (listStates g_nest) (iNestedStateIds os_orphan ! 1) = Some st_inner
   \<and> select_transition app_ex \<lparr>argEventId = 7, AppContext = (), pAppMsg = ()\<rparr>
        (listTransitions st_inner) w_ex
       = (Some \<lparr>iNewStateId = 4, bSubState = False, iEventId = 7, listConditions = [],
                listActions = [12]\<rparr>, w_ex)
   \<and> fsmExecute app_ex (Some g_nest) os_orphan 7 () () w_ex =
       Inr (eFSM_RESULT_NO_TRANSITION, os_orphan, w_ex)"
  by (simp add: ex_defs run_defs)

text \<open>
  Claim C10.  Let the nest index \<open>i\<close> (here \<open>length sts\<close>) be active and hold an
  id that names no state of the graph, while the indices before it name the states
  \<open>sts\<close> and none of these has a match, the search through them leaving the world
  \<open>w'\<close>.  Then \<open>fsmExecute\<close> returns \<open>NoTransition\<close> with the object state
  unchanged and the world \<open>w'\<close>: no callback is invoked after the search of the
  indices before \<open>i\<close>, so neither a deeper index nor the any-state is consulted.
\<close>

theorem fsmExecute_stops_at_missing_state:
  assumes ev: "ev \<noteq> FSM_CATCH_TRANSITION"
    and i: "int (length sts) \<le> iNestDepth os" "length sts < 4"
           "length sts < length (iNestedStateIds os)"
    and sts: "\<forall>j < length sts. fsmGetState (listStates g) (iNestedStateIds os ! j) = Some (sts ! j)"
    and nomatch: "select_nest app \<lparr>argEventId = ev, AppContext = ctx, pAppMsg = msg\<rparr> sts 0 w = (None, w')"
    and missing: "fsmGetState (listStates g) (iNestedStateIds os ! length sts) = None"
  shows "fsmExecute app (Some g) os ev ctx msg w = Inr (eFSM_RESULT_NO_TRANSITION, os, w')"
proof -
  let ?args = "\<lparr>argEventId = ev, AppContext = ctx, pAppMsg = msg\<rparr>"
  have stop: "fsmExecute_scan app g os ?args (int (0 + length sts)) (- 1) False w' =
      Inr (ScanReturn w')"
    using i missing by (subst fsmExecute_scan.simps) (simp add: nest_read_def)
  have "fsmExecute_scan app g os ?args (int 0) (- 1) False w =
     (case select_nest app ?args sts 0 w of
        (None, w') \<Rightarrow> fsmExecute_scan app g os ?args (int (0 + length sts)) (- 1) False w'
      | (Some (i, s, t), w1) \<Rightarrow>
          (case execute_selected app ?args s t (- 1) False w1 of
             (r, nid', sub', w2) \<Rightarrow> Inr (ScanEnd r nid' sub' (int i) w2)))"
    using i sts by (intro fsmExecute_scan_select) auto
  with nomatch stop have "fsmExecute_scan app g os ?args 0 (- 1) False w = Inr (ScanReturn w')"
    by simp
  with ev show ?thesis by (simp add: fsmExecute_def)
qed

theorem fsmExecute_stops_at_missing_state_witness:
  "(7 :: int) \<noteq> FSM_CATCH_TRANSITION
   \<and> int (length [st_blocked]) \<le> iNestDepth os_gap
   \<and> fsmGetState (listStates g_gap) (iNestedStateIds os_gap ! length [st_blocked]) = None
   \<and> select_transition app_ex \<lparr>argEventId = 7, AppContext = (), pAppMsg = ()\<rparr>
        (listTransitions st_any_enabled) \<lparr>mem = (), calls = [CondCall 9]\<rparr>
       = (Some \<lparr>iNewStateId = 1, bSubState = False, iEventId = 7, listConditions = [],
                listActions = [13]\<rparr>, \<lparr>mem = (), calls = [CondCall 9]\<rparr>)
   \<and> fsmExecute app_ex (Some g_gap) os_gap 7 () () w_ex =
       Inr (eFSM_RESULT_NO_TRANSITION, os_gap, \<lparr>mem = (), calls = [CondCall 9]\<rparr>)"
proof -
  have ev: "(7 :: int) \<noteq> FSM_CATCH_TRANSITION" by simp
  have i1: "int (length [st_blocked]) \<le> iNestDepth os_gap" by (simp add: os_gap_def)
  have i2: "length [st_blocked] < 4" by simp
  have i3: "length [st_blocked] < length (iNestedStateIds os_gap)" by (simp add: os_gap_def)
  have sts: "\<forall>j < length [st_blocked].
      fsmGetState (listStates g_gap) (iNestedStateIds os_gap ! j) = Some ([st_blocked] ! j)"
    by (simp add: ex_defs)
  have nomatch: "select_nest app_ex \<lparr>argEventId = 7, AppContext = (), pAppMsg = ()\<rparr>
      [st_blocked] 0 w_ex = (None, \<lparr>mem = (), calls = [CondCall 9]\<rparr>)"
    by (simp add: ex_defs call_condition_def)
  have missing:
    "fsmGetState (listStates g_gap) (iNestedStateIds os_gap ! length [st_blocked]) = None"
    by (simp add: ex_defs)
  have any: "select_transition app_ex \<lparr>argEventId = 7, AppContext = (), pAppMsg = ()\<rparr>
        (listTransitions st_any_enabled) \<lparr>mem = (), calls = [CondCall 9]\<rparr>
       = (Some \<lparr>iNewStateId = 1, bSubState = False, iEventId = 7, listConditions = [],
                listActions = [13]\<rparr>, \<lparr>mem = (), calls = [CondCall 9]\<rparr>)"
    by (simp add: ex_defs)
  from fsmExecute_stops_at_missing_state [OF ev i1 i2 i3 sts nomatch missing]
  have "fsmExecute app_ex (Some g_gap) os_gap 7 () () w_ex =
       Inr (eFSM_RESULT_NO_TRANSITION, os_gap, \<lparr>mem = (), calls = [CondCall 9]\<rparr>)" .
  with ev i1 missing any show ?thesis by blast
qed

section \<open>The object state after a call\<close>

lemma fsmExecute_entry_loop_result:
  "fsmExecute_entry_loop app g os ctx r nid w = Inr (r', os', w') \<Longrightarrow>
     r' = r \<or> r' = eFSM_RESULT_INTERNAL_FAILURE"
proof (induction app g os ctx r nid w rule: fsmExecute_entry_loop.induct)
  case (1 app g os ctx r nid w)
  from "1.prems" show ?case
    by (subst (asm) fsmExecute_entry_loop.simps)
       (auto split: sum.splits option.splits if_splits simp: Let_def dest: "1.IH")
qed

lemma fsmExecute_entry_result:
  "fsmExecute_entry app g os ctx r nid w = Inr (r', os', w') \<Longrightarrow>
     r' = r \<or> r' = eFSM_RESULT_INTERNAL_FAILURE"
  by (auto simp: fsmExecute_entry_def split: if_splits dest: fsmExecute_entry_loop_result)

lemma fsmExecute_change_result:
  "fsmExecute_change app g os ctx r nid sub chg w = Inr (r', os', w') \<Longrightarrow>
     r' = r \<or> r' = eFSM_RESULT_INTERNAL_FAILURE"
  unfolding fsmExecute_change_def
  by (auto simp: Let_def split: sum.splits if_splits dest: fsmExecute_entry_result)

text \<open>
  Claim C5.  Whenever \<open>fsmExecute\<close> returns \<open>NoChange\<close>, \<open>NoTransition\<close> or
  \<open>ActionFailure\<close>, the object state it leaves is the object state it was given:
  depth, array and previous state id.  The state change, which begins with the write
  of the previous state id, is run only on the result \<open>NewState\<close>, and a call that
  has begun it returns \<open>NewState\<close> or \<open>InternalFailure\<close>.
\<close>

theorem fsmExecute_unchanged_unless_new_state:
  assumes "fsmExecute app a_hFsm os ev ctx msg w = Inr (r, os', w')"
    and "r = eFSM_RESULT_NO_CHANGE \<or> r = eFSM_RESULT_NO_TRANSITION
           \<or> r = eFSM_RESULT_ACTION_FAILURE"
  shows "os' = os"
  using assms unfolding fsmExecute_def
  by (auto simp: Let_def split: option.splits if_splits sum.splits scan_exit.splits
           dest: fsmExecute_change_result)

theorem fsmExecute_unchanged_unless_new_state_witness:
  "fsmExecute app_ex (Some g_fail) (os_at 4) 7 () () w_ex =
     Inr (eFSM_RESULT_ACTION_FAILURE, os_at 4,
          \<lparr>mem = (), calls = [ActionCall 10, ActionCall 9]\<rparr>)"
proof -
  have run: "fsmExecute app_ex (Some g_fail) (os_at 4) 7 () () w_ex =
     Inr (eFSM_RESULT_ACTION_FAILURE,
          \<lparr>iNestDepth = 0, iNestedStateIds = [4, 0, 0, 0], iPreviousStateId = 0\<rparr>,
          \<lparr>mem = (), calls = [ActionCall 10, ActionCall 9]\<rparr>)"
    by (simp add: ex_defs run_defs)
  from fsmExecute_unchanged_unless_new_state [OF run] run show ?thesis by simp
qed

section \<open>Action failure and the catch transition\<close>

lemma actions_loop_append:
  "actions_loop app args ev (xs @ ys) w =
     (case actions_loop app args ev xs w of
        (True, w') \<Rightarrow> actions_loop app args ev ys w'
      | (False, w') \<Rightarrow> (False, w'))"
  by (induction xs arbitrary: w) (auto split: prod.splits bool.splits)

text \<open>
  The engine's call of an action is the application's function on the memory and one
  entry of the log.
\<close>

lemma call_action_run:
  "a \<noteq> NULL \<Longrightarrow>
     call_action app args a w =
       (fst (action_fn app a (AppContext args) (pAppMsg args) (mem w)),
        run_all_actions app args [a] w)"
  by (simp add: call_action_def run_all_actions_def split: prod.splits)

lemma run_all_actions_Nil: "run_all_actions app args [] w = w"
  by (simp add: run_all_actions_def)

lemma run_all_actions_append:
  "run_all_actions app args (xs @ ys) w =
     run_all_actions app args ys (run_all_actions app args xs w)"
  by (simp add: run_all_actions_def)

lemma run_all_actions_Cons:
  "run_all_actions app args (a # as) w =
     run_all_actions app args as (run_all_actions app args [a] w)"
  using run_all_actions_append [of app args "[a]" as w] by simp

lemma run_all_actions_NULL: "run_all_actions app args [NULL] w = w"
  by (simp add: run_all_actions_def)

lemma actions_loop_catch:
  "actions_loop app args FSM_CATCH_TRANSITION as w = (True, run_all_actions app args as w)"
proof (induction as arbitrary: w)
  case Nil
  show ?case by (simp add: run_all_actions_Nil)
next
  case (Cons a as)
  show ?case
  proof (cases "a = NULL")
    case True
    then show ?thesis
      using Cons.IH [of w] run_all_actions_Cons [of app args a as w]
      by (simp add: run_all_actions_NULL)
  next
    case False
    then show ?thesis
      using Cons.IH [of "run_all_actions app args [a] w"]
        run_all_actions_Cons [of app args a as w]
      by (simp add: call_action_run)
  qed
qed

lemma actions_loop_pass:
  "actions_succeed app args as (mem w) \<Longrightarrow>
     actions_loop app args ev as w = (True, run_all_actions app args as w)"
proof (induction as arbitrary: w)
  case Nil
  show ?case by (simp add: run_all_actions_Nil)
next
  case (Cons a as)
  show ?case
  proof (cases "a = NULL")
    case True
    with Cons.prems have "actions_succeed app args as (mem w)" by simp
    from Cons.IH [OF this] True show ?thesis
      using run_all_actions_Cons [of app args a as w] by (simp add: run_all_actions_NULL)
  next
    case False
    with Cons.prems
    have ok: "fst (action_fn app a (AppContext args) (pAppMsg args) (mem w))"
      and rest: "actions_succeed app args as (mem (run_all_actions app args [a] w))"
      by (simp_all add: run_all_actions_def)
    from Cons.IH [OF rest] False ok show ?thesis
      using run_all_actions_Cons [of app args a as w] by (simp add: call_action_run)
  qed
qed

lemma fsmGetTransition_event:
  "fsmGetTransition ts ev = Some (t, rest) \<Longrightarrow> iEventId t = ev"
  by (induction ts) (auto split: if_splits)

lemma select_transition_event:
  "select_transition app args ts w = (Some t, w1) \<Longrightarrow> iEventId t = argEventId args"
  by (induction ts arbitrary: w) (auto split: if_splits prod.splits bool.splits)

text \<open>
  Step C for a selected transition whose action \<open>a\<close> is the first to fail: the
  actions before it and \<open>a\<close> itself are invoked, none after it; then the state's
  catch transition, if it has one, with all its actions.
\<close>

lemma execute_selected_failure:
  assumes tev: "iEventId t \<noteq> FSM_CATCH_TRANSITION"
    and acts: "listActions t = pre @ a # post"
    and pre: "actions_succeed app args pre (mem w1)"
    and a: "a \<noteq> NULL"
    and fail: "\<not> fst (action_fn app a (AppContext args) (pAppMsg args)
                       (mem (run_all_actions app args pre w1)))"
  shows "execute_selected app args st t nid sub w1 =
        (case fsmGetTransition (listTransitions st) FSM_CATCH_TRANSITION of
           None \<Rightarrow> (eFSM_RESULT_ACTION_FAILURE, nid, sub,
                    run_all_actions app args (pre @ [a]) w1)
         | Some (ct, _) \<Rightarrow>
             (if iNewStateId ct = FSM_ST_SAME
              then (eFSM_RESULT_NO_CHANGE, nid, sub,
                    run_all_actions app args (listActions ct)
                      (run_all_actions app args (pre @ [a]) w1))
              else (eFSM_RESULT_NEW_STATE, iNewStateId ct, bSubState ct,
                    run_all_actions app args (listActions ct)
                      (run_all_actions app args (pre @ [a]) w1))))"
proof -
  let ?w3 = "run_all_actions app args (pre @ [a]) w1"
  have p: "actions_loop app args (iEventId t) pre w1 = (True, run_all_actions app args pre w1)"
    using pre by (rule actions_loop_pass)
  have f: "actions_loop app args (iEventId t) (a # post) (run_all_actions app args pre w1)
      = (False, ?w3)"
    using a fail tev by (simp add: call_action_run run_all_actions_append)
  have fail': "actions_loop app args (iEventId t) (listActions t) w1 = (False, ?w3)"
    using acts p f by (simp add: actions_loop_append)
  have t: "fsmExecuteTransition app args st t w1 = (eFSM_RESULT_ACTION_FAILURE, ?w3)"
    using fail' by (simp add: fsmExecuteTransition_def)
  show ?thesis
  proof (cases "fsmGetTransition (listTransitions st) FSM_CATCH_TRANSITION")
    case None
    with t show ?thesis by (simp add: execute_selected_def)
  next
    case (Some p)
    obtain ct rest where p: "p = (ct, rest)" by (cases p)
    have cev: "iEventId ct = FSM_CATCH_TRANSITION"
      using Some p by (simp add: fsmGetTransition_event)
    from Some p t cev show ?thesis
      by (simp add: execute_selected_def fsmExecuteTransition_def actions_loop_catch)
  qed
qed

text \<open>
  Claim C3.  Let \<open>t\<close> be the transition matched in the state \<open>st\<close> for an event
  other than the catch sentinel (\<open>fsmExecute\<close> admits no other), the search leaving
  the world \<open>w1\<close>, and let its action \<open>a\<close> be the first to return failure: the
  application's functions for the actions \<open>pre\<close> before it all return \<open>FSM_TRUE\<close>,
  and its function for \<open>a\<close> returns \<open>FSM_FALSE\<close> on the memory they leave.  Then
  the actions of \<open>pre\<close> and \<open>a\<close> are invoked and the actions \<open>post\<close> after
  \<open>a\<close> are not: the world is \<open>w1\<close> with the application's functions for \<open>pre\<close>
  and \<open>a\<close> applied to the memory, in this order, and with their calls added to the
  log.  If \<open>st\<close> has a catch transition \<open>ct\<close>, every action of \<open>ct\<close> is
  invoked after that, whatever each returns: the memory is changed by each of their
  functions in turn and the log has a call for each.  The result of
  \<open>_fsmExecuteState\<close>, which the state change of \<open>fsmExecute\<close> takes over, is
  then \<open>NewState\<close> with the target and the sub-state flag of \<open>ct\<close>, unless that
  target is \<open>SAME\<close>, when it is \<open>NoChange\<close>.  If \<open>st\<close> has no catch transition,
  the result is \<open>ActionFailure\<close> and the out-parameters are untouched.
\<close>

theorem catch_after_action_failure:
  assumes sel: "select_transition app args (listTransitions st) w = (Some t, w1)"
    and ev: "argEventId args \<noteq> FSM_CATCH_TRANSITION"
    and acts: "listActions t = pre @ a # post"
    and pre: "actions_succeed app args pre (mem w1)"
    and a: "a \<noteq> NULL"
    and fail: "\<not> fst (action_fn app a (AppContext args) (pAppMsg args)
                       (mem (run_all_actions app args pre w1)))"
  shows "fsmExecuteState app args st nid sub w =
        (case fsmGetTransition (listTransitions st) FSM_CATCH_TRANSITION of
           None \<Rightarrow> Inr (eFSM_RESULT_ACTION_FAILURE, nid, sub,
                        run_all_actions app args (pre @ [a]) w1)
         | Some (ct, _) \<Rightarrow>
             (if iNewStateId ct = FSM_ST_SAME
              then Inr (eFSM_RESULT_NO_CHANGE, nid, sub,
                        run_all_actions app args (listActions ct)
                          (run_all_actions app args (pre @ [a]) w1))
              else Inr (eFSM_RESULT_NEW_STATE, iNewStateId ct, bSubState ct,
                        run_all_actions app args (listActions ct)
                          (run_all_actions app args (pre @ [a]) w1))))
    \<and> mem (run_all_actions app args (pre @ [a]) w1) =
        snd (action_fn app a (AppContext args) (pAppMsg args)
               (foldl (\<lambda>m x. snd (action_fn app x (AppContext args) (pAppMsg args) m)) (mem w1)
                  (filter (\<lambda>x. x \<noteq> NULL) pre)))
    \<and> calls (run_all_actions app args (pre @ [a]) w1) =
        calls w1 @ map ActionCall (filter (\<lambda>x. x \<noteq> NULL) pre) @ [ActionCall a]"
proof -
  have tev: "iEventId t \<noteq> FSM_CATCH_TRANSITION"
    using select_transition_event [OF sel] ev by simp
  have "fsmExecuteState app args st nid sub w =
        (case fsmGetTransition (listTransitions st) FSM_CATCH_TRANSITION of
           None \<Rightarrow> Inr (eFSM_RESULT_ACTION_FAILURE, nid, sub,
                        run_all_actions app args (pre @ [a]) w1)
         | Some (ct, _) \<Rightarrow>
             (if iNewStateId ct = FSM_ST_SAME
              then Inr (eFSM_RESULT_NO_CHANGE, nid, sub,
                        run_all_actions app args (listActions ct)
                          (run_all_actions app args (pre @ [a]) w1))
              else Inr (eFSM_RESULT_NEW_STATE, iNewStateId ct, bSubState ct,
                        run_all_actions app args (listActions ct)
                          (run_all_actions app args (pre @ [a]) w1))))"
    using sel execute_selected_failure [OF tev acts pre a fail, of st nid sub]
    by (simp add: fsmExecuteState_select split: option.splits)
  moreover have "mem (run_all_actions app args (pre @ [a]) w1) =
        snd (action_fn app a (AppContext args) (pAppMsg args)
               (foldl (\<lambda>m x. snd (action_fn app x (AppContext args) (pAppMsg args) m)) (mem w1)
                  (filter (\<lambda>x. x \<noteq> NULL) pre)))"
    using a by (simp add: run_all_actions_def)
  moreover have "calls (run_all_actions app args (pre @ [a]) w1) =
        calls w1 @ map ActionCall (filter (\<lambda>x. x \<noteq> NULL) pre) @ [ActionCall a]"
    using a by (simp add: run_all_actions_def)
  ultimately show ?thesis by blast
qed

text \<open>
  Two runs on the application with memory.  The state \<open>st_catching\<close> has the
  transition \<open>tr_failing\<close> with the actions \<open>10\<close>, \<open>9\<close>, \<open>11\<close> and the catch
  transition \<open>tr_catch\<close> with the actions \<open>9\<close>, \<open>14\<close>: the memory and the log
  show \<open>10\<close>, \<open>9\<close>, then \<open>9\<close>, \<open>14\<close>, and never \<open>11\<close>.  The state
  \<open>st_failing\<close> has \<open>tr_failing\<close> only.
\<close>

theorem catch_after_action_failure_witness:
  "select_transition app_rec \<lparr>argEventId = 7, AppContext = (), pAppMsg = ()\<rparr>
       (listTransitions st_catching) w_rec = (Some tr_failing, w_rec)
   \<and> listActions tr_failing = [10] @ 9 # [11]
   \<and> actions_succeed app_rec \<lparr>argEventId = 7, AppContext = (), pAppMsg = ()\<rparr> [10] (mem w_rec)
   \<and> action_fn app_rec 9 () () [10] = (False, [10, 9])
   \<and> fsmGetTransition (listTransitions st_catching) FSM_CATCH_TRANSITION = Some (tr_catch, [])
   \<and> fsmExecuteState app_rec \<lparr>argEventId = 7, AppContext = (), pAppMsg = ()\<rparr> st_catching
        (- 1) False w_rec
       = Inr (eFSM_RESULT_NEW_STATE, 3, False,
              \<lparr>mem = [10, 9, 9, 14],
               calls = [ActionCall 10, ActionCall 9, ActionCall 9, ActionCall 14]\<rparr>)
   \<and> fsmGetTransition (listTransitions st_failing) FSM_CATCH_TRANSITION = None
   \<and> fsmExecuteState app_rec \<lparr>argEventId = 7, AppContext = (), pAppMsg = ()\<rparr> st_failing
        (- 1) False w_rec
       = Inr (eFSM_RESULT_ACTION_FAILURE, - 1, False,
              \<lparr>mem = [10, 9], calls = [ActionCall 10, ActionCall 9]\<rparr>)"
proof -
  let ?args = "\<lparr>argEventId = 7, AppContext = (), pAppMsg = ()\<rparr> :: (unit, unit) FSM_EXECUTE_ARGS"
  have sel: "select_transition app_rec ?args (listTransitions st_catching) w_rec
      = (Some tr_failing, w_rec)"
    by (simp add: ex_defs)
  have sel': "select_transition app_rec ?args (listTransitions st_failing) w_rec
      = (Some tr_failing, w_rec)"
    by (simp add: ex_defs)
  have ev: "argEventId ?args \<noteq> FSM_CATCH_TRANSITION" by simp
  have acts: "listActions tr_failing = [10] @ 9 # [11]" by (simp add: ex_defs)
  have pre: "actions_succeed app_rec ?args [10] (mem w_rec)"
    by (simp add: ex_defs)
  have a: "(9 :: fptr) \<noteq> NULL" by simp
  have f: "action_fn app_rec 9 () () [10] = (False, [10, 9])"
    by (simp add: ex_defs)
  have fail: "\<not> fst (action_fn app_rec 9 (AppContext ?args) (pAppMsg ?args)
                       (mem (run_all_actions app_rec ?args [10] w_rec)))"
    by (simp add: ex_defs run_all_actions_def)
  have c: "fsmGetTransition (listTransitions st_catching) FSM_CATCH_TRANSITION
      = Some (tr_catch, [])"
    by (simp add: ex_defs)
  have c': "fsmGetTransition (listTransitions st_failing) FSM_CATCH_TRANSITION = None"
    by (simp add: ex_defs)
  have r1: "fsmExecuteState app_rec ?args st_catching (- 1) False w_rec
       = Inr (eFSM_RESULT_NEW_STATE, 3, False,
              \<lparr>mem = [10, 9, 9, 14],
               calls = [ActionCall 10, ActionCall 9, ActionCall 9, ActionCall 14]\<rparr>)"
    using catch_after_action_failure [OF sel ev acts pre a fail, of "- 1" False] c
    by (simp add: ex_defs run_all_actions_def)
  have r2: "fsmExecuteState app_rec ?args st_failing (- 1) False w_rec
       = Inr (eFSM_RESULT_ACTION_FAILURE, - 1, False,
              \<lparr>mem = [10, 9], calls = [ActionCall 10, ActionCall 9]\<rparr>)"
    using catch_after_action_failure [OF sel' ev acts pre a fail, of "- 1" False] c'
    by (simp add: ex_defs run_all_actions_def)
  from sel acts pre f c r1 c' r2 show ?thesis by blast
qed

text \<open>
  Claim C4, as the code has it.  Let no active state match, and let the transition
  \<open>t\<close> be matched on the any-state \<open>sAny\<close> with a failing action \<open>a\<close>, as in
  C3: the actions \<open>pre\<close> and \<open>a\<close> are invoked, those after \<open>a\<close> are not.  Then
  the catch transition that is looked up is the any-state's own; no catch transition of
  an active state is consulted.  If the any-state has a catch transition, every action
  of it is invoked, whatever each returns (the memory is changed by each of their
  functions in turn and the log has a call for each), and the call goes on with its
  target: \<open>NoChange\<close> for \<open>SAME\<close>, the state change at depth \<open>0\<close> otherwise.
  Only if the any-state has no catch transition does the call return
  \<open>ActionFailure\<close> with the object state unchanged.
\<close>

theorem any_state_catch:
  assumes ok: "object_state_ok os" and ev: "ev \<noteq> FSM_CATCH_TRANSITION"
    and len: "length sts = nat (iNestDepth os) + 1"
    and sts: "\<forall>j < length sts. fsmGetState (listStates g) (iNestedStateIds os ! j) = Some (sts ! j)"
    and nomatch: "select_nest app \<lparr>argEventId = ev, AppContext = ctx, pAppMsg = msg\<rparr> sts 0 w
                    = (None, w0)"
    and any: "fsmGetState (listStates g) FSM_ST_ANY = Some sAny"
    and sel: "select_transition app \<lparr>argEventId = ev, AppContext = ctx, pAppMsg = msg\<rparr>
                (listTransitions sAny) w0 = (Some t, w1)"
    and acts: "listActions t = pre @ a # post"
    and pre: "actions_succeed app \<lparr>argEventId = ev, AppContext = ctx, pAppMsg = msg\<rparr> pre (mem w1)"
    and a: "a \<noteq> NULL"
    and fail: "\<not> fst (action_fn app a ctx msg
                  (mem (run_all_actions app \<lparr>argEventId = ev, AppContext = ctx, pAppMsg = msg\<rparr>
                          pre w1)))"
  shows "fsmExecute app (Some g) os ev ctx msg w =
     (case fsmGetTransition (listTransitions sAny) FSM_CATCH_TRANSITION of
        None \<Rightarrow>
          Inr (eFSM_RESULT_ACTION_FAILURE, os,
               run_all_actions app \<lparr>argEventId = ev, AppContext = ctx, pAppMsg = msg\<rparr>
                 (pre @ [a]) w1)
      | Some (ct, _) \<Rightarrow>
          (if iNewStateId ct = FSM_ST_SAME
           then Inr (eFSM_RESULT_NO_CHANGE, os,
                     run_all_actions app \<lparr>argEventId = ev, AppContext = ctx, pAppMsg = msg\<rparr>
                       (listActions ct)
                       (run_all_actions app \<lparr>argEventId = ev, AppContext = ctx, pAppMsg = msg\<rparr>
                          (pre @ [a]) w1))
           else fsmExecute_change app g os ctx eFSM_RESULT_NEW_STATE (iNewStateId ct)
                  (bSubState ct) 0
                  (run_all_actions app \<lparr>argEventId = ev, AppContext = ctx, pAppMsg = msg\<rparr>
                     (listActions ct)
                     (run_all_actions app \<lparr>argEventId = ev, AppContext = ctx, pAppMsg = msg\<rparr>
                        (pre @ [a]) w1))))
    \<and> mem (run_all_actions app \<lparr>argEventId = ev, AppContext = ctx, pAppMsg = msg\<rparr> (pre @ [a]) w1) =
        snd (action_fn app a ctx msg
               (foldl (\<lambda>m x. snd (action_fn app x ctx msg m)) (mem w1)
                  (filter (\<lambda>x. x \<noteq> NULL) pre)))
    \<and> calls (run_all_actions app \<lparr>argEventId = ev, AppContext = ctx, pAppMsg = msg\<rparr> (pre @ [a]) w1) =
        calls w1 @ map ActionCall (filter (\<lambda>x. x \<noteq> NULL) pre) @ [ActionCall a]"
proof -
  let ?args = "\<lparr>argEventId = ev, AppContext = ctx, pAppMsg = msg\<rparr>"
  have tev: "iEventId t \<noteq> FSM_CATCH_TRANSITION"
    using select_transition_event [OF sel] ev by simp
  have len': "length sts \<le> nat (iNestDepth os) + 1" using len by simp
  have stop: "length sts = nat (iNestDepth os) + 1
      \<or> fst (select_nest app ?args sts 0 w) \<noteq> None
      \<or> fsmGetState (listStates g) (iNestedStateIds os ! length sts) = None"
    using len by blast
  have fail': "\<not> fst (action_fn app a (AppContext ?args) (pAppMsg ?args)
                       (mem (run_all_actions app ?args pre w1)))"
    using fail by simp
  have "fsmExecute app (Some g) os ev ctx msg w =
      finish_execute app g os ctx 0 (execute_selected app ?args sAny t (- 1) False w1)"
    using nomatch any sel len by (simp add: fsmExecute_search [OF ok ev len' sts stop])
  then have "fsmExecute app (Some g) os ev ctx msg w =
     (case fsmGetTransition (listTransitions sAny) FSM_CATCH_TRANSITION of
        None \<Rightarrow>
          Inr (eFSM_RESULT_ACTION_FAILURE, os, run_all_actions app ?args (pre @ [a]) w1)
      | Some (ct, _) \<Rightarrow>
          (if iNewStateId ct = FSM_ST_SAME
           then Inr (eFSM_RESULT_NO_CHANGE, os,
                     run_all_actions app ?args (listActions ct)
                       (run_all_actions app ?args (pre @ [a]) w1))
           else fsmExecute_change app g os ctx eFSM_RESULT_NEW_STATE (iNewStateId ct)
                  (bSubState ct) 0
                  (run_all_actions app ?args (listActions ct)
                     (run_all_actions app ?args (pre @ [a]) w1))))"
    by (simp add: execute_selected_failure [OF tev acts pre a fail'] finish_execute_def
          split: option.splits)
  moreover have "mem (run_all_actions app ?args (pre @ [a]) w1) =
        snd (action_fn app a ctx msg
               (foldl (\<lambda>m x. snd (action_fn app x ctx msg m)) (mem w1)
                  (filter (\<lambda>x. x \<noteq> NULL) pre)))"
    using a by (simp add: run_all_actions_def)
  moreover have "calls (run_all_actions app ?args (pre @ [a]) w1) =
        calls w1 @ map ActionCall (filter (\<lambda>x. x \<noteq> NULL) pre) @ [ActionCall a]"
    using a by (simp add: run_all_actions_def)
  ultimately show ?thesis by blast
qed

text \<open>
  A run on the application with memory: the active state \<open>1\<close> of \<open>g_any_catch\<close>
  has no transition; the any-state has \<open>tr_failing\<close> and \<open>tr_catch\<close>.  The memory
  and the log show the actions \<open>10\<close>, \<open>9\<close> of the matched transition, then the
  actions \<open>9\<close>, \<open>14\<close> of the any-state's catch transition, then the state change
  to its target \<open>3\<close>.
\<close>

theorem any_state_catch_witness:
  "object_state_ok (os_at 1)
   \<and> select_nest app_rec \<lparr>argEventId = 7, AppContext = (), pAppMsg = ()\<rparr> [st_plain 1 21 31] 0 w_rec
       = (None, w_rec)
   \<and> fsmGetState (listStates g_any_catch) FSM_ST_ANY = Some st_any_catching
   \<and> select_transition app_rec \<lparr>argEventId = 7, AppContext = (), pAppMsg = ()\<rparr>
        (listTransitions st_any_catching) w_rec = (Some tr_failing, w_rec)
   \<and> listActions tr_failing = [10] @ 9 # [11]
   \<and> actions_succeed app_rec \<lparr>argEventId = 7, AppContext = (), pAppMsg = ()\<rparr> [10] (mem w_rec)
   \<and> action_fn app_rec 9 () () [10] = (False, [10, 9])
   \<and> fsmGetTransition (listTransitions st_any_catching) FSM_CATCH_TRANSITION
       = Some (tr_catch, [])
   \<and> fsmExecute app_rec (Some g_any_catch) (os_at 1) 7 () () w_rec =
       Inr (eFSM_RESULT_NEW_STATE,
            \<lparr>iNestDepth = 0, iNestedStateIds = [3, 0, 0, 0], iPreviousStateId = 1\<rparr>,
            \<lparr>mem = [10, 9, 9, 14, 31, 23],
             calls = [ActionCall 10, ActionCall 9, ActionCall 9, ActionCall 14,
                      ExitCall 31, EntryCall 23]\<rparr>)"
proof -
  let ?args = "\<lparr>argEventId = 7, AppContext = (), pAppMsg = ()\<rparr> :: (unit, unit) FSM_EXECUTE_ARGS"
  have ok: "object_state_ok (os_at 1)" by (simp add: object_state_ok_def os_at_def)
  have ev: "(7 :: int) \<noteq> FSM_CATCH_TRANSITION" by simp
  have len: "length [st_plain 1 21 31] = nat (iNestDepth (os_at 1)) + 1"
    by (simp add: os_at_def)
  have sts: "\<forall>j < length [st_plain 1 21 31].
      fsmGetState (listStates g_any_catch) (iNestedStateIds (os_at 1) ! j)
        = Some ([st_plain 1 21 31] ! j)"
    by (simp add: ex_defs)
  have nomatch: "select_nest app_rec ?args [st_plain 1 21 31] 0 w_rec = (None, w_rec)"
    by (simp add: ex_defs)
  have any: "fsmGetState (listStates g_any_catch) FSM_ST_ANY = Some st_any_catching"
    by (simp add: ex_defs)
  have sel: "select_transition app_rec ?args (listTransitions st_any_catching) w_rec
      = (Some tr_failing, w_rec)"
    by (simp add: ex_defs)
  have acts: "listActions tr_failing = [10] @ 9 # [11]" by (simp add: ex_defs)
  have pre: "actions_succeed app_rec ?args [10] (mem w_rec)"
    by (simp add: ex_defs)
  have a: "(9 :: fptr) \<noteq> NULL" by simp
  have f: "action_fn app_rec 9 () () [10] = (False, [10, 9])"
    by (simp add: ex_defs)
  have fail: "\<not> fst (action_fn app_rec 9 () () (mem (run_all_actions app_rec ?args [10] w_rec)))"
    by (simp add: ex_defs run_all_actions_def)
  have c: "fsmGetTransition (listTransitions st_any_catching) FSM_CATCH_TRANSITION
      = Some (tr_catch, [])"
    by (simp add: ex_defs)
  have chg: "fsmExecute_change app_rec g_any_catch (os_at 1) () eFSM_RESULT_NEW_STATE 3 False 0
         \<lparr>mem = [10, 9, 9, 14],
          calls = [ActionCall 10, ActionCall 9, ActionCall 9, ActionCall 14]\<rparr> =
       Inr (eFSM_RESULT_NEW_STATE,
            \<lparr>iNestDepth = 0, iNestedStateIds = [3, 0, 0, 0], iPreviousStateId = 1\<rparr>,
            \<lparr>mem = [10, 9, 9, 14, 31, 23],
             calls = [ActionCall 10, ActionCall 9, ActionCall 9, ActionCall 14,
                      ExitCall 31, EntryCall 23]\<rparr>)"
    by (simp add: ex_defs run_defs)
  have run: "fsmExecute app_rec (Some g_any_catch) (os_at 1) 7 () () w_rec =
       Inr (eFSM_RESULT_NEW_STATE,
            \<lparr>iNestDepth = 0, iNestedStateIds = [3, 0, 0, 0], iPreviousStateId = 1\<rparr>,
            \<lparr>mem = [10, 9, 9, 14, 31, 23],
             calls = [ActionCall 10, ActionCall 9, ActionCall 9, ActionCall 14,
                      ExitCall 31, EntryCall 23]\<rparr>)"
  proof -
    have w4: "run_all_actions app_rec ?args (listActions tr_catch)
                (run_all_actions app_rec ?args ([10] @ [9]) w_rec)
        = \<lparr>mem = [10, 9, 9, 14],
           calls = [ActionCall 10, ActionCall 9, ActionCall 9, ActionCall 14]\<rparr>"
      by (simp add: ex_defs run_all_actions_def)
    have t: "iNewStateId tr_catch = 3" "bSubState tr_catch = False"
      by (simp_all add: ex_defs)
    from any_state_catch [OF ok ev len sts nomatch any sel acts pre a fail] c
    have "fsmExecute app_rec (Some g_any_catch) (os_at 1) 7 () () w_rec =
        fsmExecute_change app_rec g_any_catch (os_at 1) () eFSM_RESULT_NEW_STATE
          (iNewStateId tr_catch) (bSubState tr_catch) 0
          (run_all_actions app_rec ?args (listActions tr_catch)
             (run_all_actions app_rec ?args ([10] @ [9]) w_rec))"
      by (simp add: t)
    then show ?thesis by (simp only: w4 t chg)
  qed
  from ok nomatch any sel acts pre f c run show ?thesis by blast
qed

text \<open>
  The claim C4 as stated fails: the any-state of \<open>g_any_catch\<close> has a catch transition,
  its actions \<open>9\<close> and \<open>14\<close> are run after the failure of the matched transition,
  and the call returns \<open>NewState\<close> with the catch transition's target \<open>3\<close>.
\<close>

theorem any_state_catch_counterexample:
  "select_nest app_ex \<lparr>argEventId = 7, AppContext = (), pAppMsg = ()\<rparr> [st_plain 1 21 31] 0 w_ex
     = (None, w_ex)
   \<and> fsmGetState (listStates g_any_catch) FSM_ST_ANY = Some st_any_catching
   \<and> select_transition app_ex \<lparr>argEventId = 7, AppContext = (), pAppMsg = ()\<rparr>
        (listTransitions st_any_catching) w_ex = (Some tr_failing, w_ex)
   \<and> fsmExecute app_ex (Some g_any_catch) (os_at 1) 7 () () w_ex =
       Inr (eFSM_RESULT_NEW_STATE,
            \<lparr>iNestDepth = 0, iNestedStateIds = [3, 0, 0, 0], iPreviousStateId = 1\<rparr>,
            \<lparr>mem = (), calls = [ActionCall 10, ActionCall 9, ActionCall 9, ActionCall 14,
                                ExitCall 31, EntryCall 23]\<rparr>)"
  by (simp add: ex_defs run_defs)

section \<open>The state change\<close>

lemma nest_read_ok:
  "length (iNestedStateIds os) = 4 \<Longrightarrow> 0 \<le> i \<Longrightarrow> i < 4 \<Longrightarrow>
     nest_read os i = Inr (iNestedStateIds os ! nat i)"
  by (simp add: nest_read_def)

lemma nest_write_ok:
  "length (iNestedStateIds os) = 4 \<Longrightarrow> 0 \<le> i \<Longrightarrow> i < 4 \<Longrightarrow>
     nest_write os i v = Inr (os\<lparr>iNestedStateIds := (iNestedStateIds os)[nat i := v]\<rparr>)"
  by (simp add: nest_write_def)

text \<open>
  The engine's calls of exit and entry functions are the application's functions on
  the memory and one entry of the log each.
\<close>

lemma run_exits_Nil: "run_exits app ctx [] w = w"
  by (simp add: run_exits_def)

lemma run_exits_append:
  "run_exits app ctx (xs @ ys) w = run_exits app ctx ys (run_exits app ctx xs w)"
  by (simp add: run_exits_def)

lemma exit_state_run: "exit_state app ctx s w = run_exits app ctx [fpExitAction s] w"
  by (simp add: exit_state_def call_exit_def run_exits_def)

lemma run_entries_append:
  "run_entries app ctx (xs @ ys) w = run_entries app ctx ys (run_entries app ctx xs w)"
  by (simp add: run_entries_def)

lemma enter_state_run: "enter_state app ctx s w = run_entries app ctx [fpEntryAction s] w"
  by (simp add: enter_state_def call_entry_def run_entries_def)

lemma exit_fptrs_empty: "cnt < low \<Longrightarrow> exit_fptrs g ids cnt low = []"
  by (simp add: exit_fptrs_def)

lemma exit_fptrs_step:
  assumes "low \<le> cnt" "0 \<le> low"
  shows "exit_fptrs g ids cnt low =
     (case fsmGetState (listStates g) (ids ! nat cnt) of
        None \<Rightarrow> [] | Some s \<Rightarrow> [fpExitAction s])
     @ exit_fptrs g ids (cnt - 1) low"
proof -
  from assms have n: "nat (cnt + 1) = Suc (nat cnt)" "nat low \<le> nat cnt" by simp_all
  then have "[nat low ..< nat (cnt + 1)] = [nat low ..< nat cnt] @ [nat cnt]" by simp
  then show ?thesis by (simp add: exit_fptrs_def)
qed

text \<open>
  The exit loop on a well-formed array: the exit functions of the states named at the
  indices from \<open>cnt\<close> down to \<open>low\<close> are invoked, innermost first, and nothing
  else.
\<close>

lemma fsmExecute_exit_run:
  assumes "length (iNestedStateIds os) = 4" "cnt < 4" "0 \<le> low"
  shows "fsmExecute_exit app g os ctx cnt low w =
           Inr (run_exits app ctx (exit_fptrs g (iNestedStateIds os) cnt low) w)"
  using assms
proof (induction app g os ctx cnt low w rule: fsmExecute_exit.induct)
  case (1 app g os ctx cnt low w)
  show ?case
  proof (cases "cnt \<ge> low")
    case False
    then have "fsmExecute_exit app g os ctx cnt low w = Inr w"
      by (subst fsmExecute_exit.simps) simp
    with False show ?thesis by (simp add: exit_fptrs_empty run_exits_Nil)
  next
    case True
    with "1.prems" have rd: "nest_read os cnt = Inr (iNestedStateIds os ! nat cnt)"
      by (intro nest_read_ok) auto
    let ?here = "case fsmGetState (listStates g) (iNestedStateIds os ! nat cnt) of
                   None \<Rightarrow> [] | Some s \<Rightarrow> [fpExitAction s]"
    let ?w1 = "case fsmGetState (listStates g) (iNestedStateIds os ! nat cnt) of
                 None \<Rightarrow> w | Some s \<Rightarrow> exit_state app ctx s w"
    have w1: "?w1 = run_exits app ctx ?here w"
      by (simp add: exit_state_run run_exits_Nil split: option.splits)
    have ih: "fsmExecute_exit app g os ctx (cnt - 1) low ?w1 =
        Inr (run_exits app ctx (exit_fptrs g (iNestedStateIds os) (cnt - 1) low) ?w1)"
      using "1.IH" [OF True rd] "1.prems" by simp
    have "fsmExecute_exit app g os ctx cnt low w =
        fsmExecute_exit app g os ctx (cnt - 1) low ?w1"
      using True rd by (subst fsmExecute_exit.simps) simp
    also have "\<dots> = Inr (run_exits app ctx (exit_fptrs g (iNestedStateIds os) (cnt - 1) low)
                          (run_exits app ctx ?here w))"
      using ih w1 by simp
    also have "\<dots> = Inr (run_exits app ctx (exit_fptrs g (iNestedStateIds os) cnt low) w)"
      using True "1.prems" by (simp add: exit_fptrs_step run_exits_append)
    finally show ?thesis .
  qed
qed

lemma fsmExecute_exit_previous:
  "fsmExecute_exit app g (os\<lparr>iPreviousStateId := p\<rparr>) ctx cnt low w =
     fsmExecute_exit app g os ctx cnt low w"
proof (induction app g os ctx cnt low w rule: fsmExecute_exit.induct)
  case (1 app g os ctx cnt low w)
  have rd: "nest_read (os\<lparr>iPreviousStateId := p\<rparr>) cnt = nest_read os cnt"
    by (simp add: nest_read_def)
  show ?case
  proof (cases "cnt \<ge> low")
    case False
    then show ?thesis
      by (subst fsmExecute_exit.simps, subst (2) fsmExecute_exit.simps) simp
  next
    case True
    show ?thesis
    proof (cases "nest_read os cnt")
      case (Inl f)
      with True rd show ?thesis
        by (subst fsmExecute_exit.simps, subst (2) fsmExecute_exit.simps) simp
    next
      case (Inr sid)
      with True rd "1.IH" [OF True Inr] show ?thesis
        by (subst fsmExecute_exit.simps, subst (2) fsmExecute_exit.simps) simp
    qed
  qed
qed

lemma fsmExecute_entry_loop_absent:
  assumes "length (iNestedStateIds os) = 4" "0 \<le> iNestDepth os" "iNestDepth os < 4"
    and "fsmGetState (listStates g) nid = None"
  shows "fsmExecute_entry_loop app g os ctx r nid w =
     Inr (r, os\<lparr>iNestedStateIds := (iNestedStateIds os)[nat (iNestDepth os) := nid]\<rparr>, w)"
  using assms by (subst fsmExecute_entry_loop.simps) (simp add: nest_write_ok)

lemma fsmExecute_entry_loop_plain:
  assumes "length (iNestedStateIds os) = 4" "0 \<le> iNestDepth os" "iNestDepth os < 4"
    and "fsmGetState (listStates g) nid = Some s"
    and "\<not> (bComplex s \<and> FSM_ST_SAME \<noteq> iInitialSubStateId s)"
  shows "fsmExecute_entry_loop app g os ctx r nid w =
     Inr (r, os\<lparr>iNestedStateIds := (iNestedStateIds os)[nat (iNestDepth os) := nid]\<rparr>,
          enter_state app ctx s w)"
  using assms by (subst fsmExecute_entry_loop.simps) (auto simp: nest_write_ok Let_def)

lemma fsmExecute_entry_loop_descend:
  assumes "length (iNestedStateIds os) = 4" "0 \<le> iNestDepth os" "iNestDepth os < 3"
    and "fsmGetState (listStates g) nid = Some s"
    and "bComplex s" "FSM_ST_SAME \<noteq> iInitialSubStateId s"
  shows "fsmExecute_entry_loop app g os ctx r nid w =
     fsmExecute_entry_loop app g
       (os\<lparr>iNestedStateIds := (iNestedStateIds os)[nat (iNestDepth os) := nid],
           iNestDepth := iNestDepth os + 1\<rparr>)
       ctx r (iInitialSubStateId s) (enter_state app ctx s w)"
  using assms by (subst fsmExecute_entry_loop.simps) (simp add: nest_write_ok Let_def)

text \<open>
  Claim C6.  Let the graph have the complex state \<open>A\<close> with the initial substate
  \<open>B\<close>, \<open>B\<close> complex with the initial substate \<open>C\<close>, and \<open>C\<close> not complex
  (three ids of real states), and let the state at nest index \<open>0\<close> of a well-formed
  object state execute, on the event, to a new state with the target \<open>A\<close> that is no
  sub-state transition, leaving the world \<open>w2\<close>.  Then \<open>fsmExecute\<close> returns
  \<open>NewState\<close>; the nest depth is \<open>2\<close> and the array holds \<open>A\<close>, \<open>B\<close>,
  \<open>C\<close> at the indices \<open>0\<close>, \<open>1\<close>, \<open>2\<close>.  The world it leaves is \<open>w2\<close>
  after the exit functions of the states active before, from the current depth down to
  \<open>0\<close>, and then the entry functions of \<open>A\<close>, \<open>B\<close> and \<open>C\<close>, in this order
  (each state's if it has one): the memory is the one that the application's exit and
  entry functions leave, applied in that order, the log has a call for each, and no
  other callback is invoked.
\<close>

theorem enter_nested_complex_state:
  assumes ok: "object_state_ok os" and ev: "ev \<noteq> FSM_CATCH_TRANSITION"
    and s0: "fsmGetState (listStates g) (iNestedStateIds os ! 0) = Some s0"
    and match: "fsmExecuteState app \<lparr>argEventId = ev, AppContext = ctx, pAppMsg = msg\<rparr> s0
                  (- 1) False w = Inr (eFSM_RESULT_NEW_STATE, A, False, w2)"
    and A: "0 \<le> A" "fsmGetState (listStates g) A = Some sA"
           "bComplex sA" "iInitialSubStateId sA = B"
    and B: "0 \<le> B" "fsmGetState (listStates g) B = Some sB"
           "bComplex sB" "iInitialSubStateId sB = C"
    and C: "0 \<le> C" "fsmGetState (listStates g) C = Some sC" "\<not> bComplex sC"
  shows "fsmExecute app (Some g) os ev ctx msg w =
        Inr (eFSM_RESULT_NEW_STATE,
             \<lparr>iNestDepth = 2,
              iNestedStateIds = [A, B, C, iNestedStateIds os ! 3],
              iPreviousStateId = iNestedStateIds os ! nat (iNestDepth os)\<rparr>,
             run_entries app ctx [fpEntryAction sA, fpEntryAction sB, fpEntryAction sC]
               (run_exits app ctx (exit_fptrs g (iNestedStateIds os) (iNestDepth os) 0) w2))
    \<and> mem (run_entries app ctx [fpEntryAction sA, fpEntryAction sB, fpEntryAction sC]
             (run_exits app ctx (exit_fptrs g (iNestedStateIds os) (iNestDepth os) 0) w2)) =
        foldl (\<lambda>m f. entry_fn app f ctx m)
          (foldl (\<lambda>m f. exit_fn app f ctx m) (mem w2)
             (filter (\<lambda>f. f \<noteq> NULL) (exit_fptrs g (iNestedStateIds os) (iNestDepth os) 0)))
          (filter (\<lambda>f. f \<noteq> NULL) [fpEntryAction sA, fpEntryAction sB, fpEntryAction sC])
    \<and> calls (run_entries app ctx [fpEntryAction sA, fpEntryAction sB, fpEntryAction sC]
               (run_exits app ctx (exit_fptrs g (iNestedStateIds os) (iNestDepth os) 0) w2)) =
        calls w2
        @ map ExitCall
            (filter (\<lambda>f. f \<noteq> NULL) (exit_fptrs g (iNestedStateIds os) (iNestDepth os) 0))
        @ map EntryCall
            (filter (\<lambda>f. f \<noteq> NULL) [fpEntryAction sA, fpEntryAction sB, fpEntryAction sC])"
proof -
  let ?args = "\<lparr>argEventId = ev, AppContext = ctx, pAppMsg = msg\<rparr>"
  let ?d = "iNestDepth os"
  let ?cur = "iNestedStateIds os ! nat ?d"
  let ?w3 = "run_exits app ctx (exit_fptrs g (iNestedStateIds os) ?d 0) w2"
  from ok have len: "length (iNestedStateIds os) = 4" and d: "0 \<le> ?d" "?d < 4"
    by (simp_all add: object_state_ok_def)
  from len obtain i0 i1 i2 i3 where ids: "iNestedStateIds os = [i0, i1, i2, i3]"
    by (auto simp: length_Suc_conv numeral_eq_Suc)
  have ex: "fsmExecute_exit app g os ctx ?d 0 w2 = Inr ?w3"
    using len d(2) by (intro fsmExecute_exit_run) auto
  have scan: "fsmExecute_scan app g os ?args 0 (- 1) False w =
      Inr (ScanEnd eFSM_RESULT_NEW_STATE A False 0 w2)"
    using d len s0 match by (subst fsmExecute_scan.simps) (simp add: nest_read_def)
  let ?os1 = "os\<lparr>iPreviousStateId := ?cur\<rparr>"
  let ?osA = "?os1\<lparr>iNestDepth := 0\<rparr>"
  let ?osB = "?osA\<lparr>iNestedStateIds := (iNestedStateIds ?osA)[nat (iNestDepth ?osA) := A],
                   iNestDepth := iNestDepth ?osA + 1\<rparr>"
  let ?osC = "?osB\<lparr>iNestedStateIds := (iNestedStateIds ?osB)[nat (iNestDepth ?osB) := B],
                   iNestDepth := iNestDepth ?osB + 1\<rparr>"
  let ?wA = "enter_state app ctx sA ?w3"
  let ?wB = "enter_state app ctx sB ?wA"
  have eC: "fsmExecute_entry_loop app g ?osC ctx eFSM_RESULT_NEW_STATE C ?wB =
      Inr (eFSM_RESULT_NEW_STATE,
           ?osC\<lparr>iNestedStateIds := (iNestedStateIds ?osC)[nat (iNestDepth ?osC) := C]\<rparr>,
           enter_state app ctx sC ?wB)"
    using len C by (intro fsmExecute_entry_loop_plain) auto
  have eB: "fsmExecute_entry_loop app g ?osB ctx eFSM_RESULT_NEW_STATE B ?wA =
      fsmExecute_entry_loop app g ?osC ctx eFSM_RESULT_NEW_STATE C ?wB"
    using len B C(1) fsmExecute_entry_loop_descend [of ?osB g B sB app ctx eFSM_RESULT_NEW_STATE ?wA]
    by auto
  have eA: "fsmExecute_entry_loop app g ?osA ctx eFSM_RESULT_NEW_STATE A ?w3 =
      fsmExecute_entry_loop app g ?osB ctx eFSM_RESULT_NEW_STATE B ?wA"
    using len A B(1) fsmExecute_entry_loop_descend [of ?osA g A sA app ctx eFSM_RESULT_NEW_STATE ?w3]
    by auto
  have change: "fsmExecute_change app g os ctx eFSM_RESULT_NEW_STATE A False 0 w2 =
      Inr (eFSM_RESULT_NEW_STATE,
           ?osC\<lparr>iNestedStateIds := (iNestedStateIds ?osC)[nat (iNestDepth ?osC) := C]\<rparr>,
           enter_state app ctx sC ?wB)"
  proof -
    have "fsmExecute_change app g os ctx eFSM_RESULT_NEW_STATE A False 0 w2 =
        fsmExecute_entry_loop app g ?osA ctx eFSM_RESULT_NEW_STATE A ?w3"
      using len d A(1) ex
      by (simp add: fsmExecute_change_def nest_read_ok fsmExecute_exit_previous
            fsmExecute_entry_def)
    then show ?thesis by (simp only: eA eB eC)
  qed
  have entries: "enter_state app ctx sC ?wB =
      run_entries app ctx [fpEntryAction sA, fpEntryAction sB, fpEntryAction sC] ?w3"
    using run_entries_append [of app ctx "[fpEntryAction sA]" "[fpEntryAction sB, fpEntryAction sC]" ?w3]
      run_entries_append [of app ctx "[fpEntryAction sB]" "[fpEntryAction sC]"
        "run_entries app ctx [fpEntryAction sA] ?w3"]
    by (simp add: enter_state_run)
  have run: "fsmExecute app (Some g) os ev ctx msg w =
      Inr (eFSM_RESULT_NEW_STATE,
           \<lparr>iNestDepth = 2, iNestedStateIds = [A, B, C, iNestedStateIds os ! 3],
            iPreviousStateId = ?cur\<rparr>,
           run_entries app ctx [fpEntryAction sA, fpEntryAction sB, fpEntryAction sC] ?w3)"
    using ev scan change ids entries
    by (simp add: fsmExecute_def fsmExecute_any_matched)
  moreover have "mem (run_entries app ctx [fpEntryAction sA, fpEntryAction sB, fpEntryAction sC] ?w3) =
        foldl (\<lambda>m f. entry_fn app f ctx m)
          (foldl (\<lambda>m f. exit_fn app f ctx m) (mem w2)
             (filter (\<lambda>f. f \<noteq> NULL) (exit_fptrs g (iNestedStateIds os) (iNestDepth os) 0)))
          (filter (\<lambda>f. f \<noteq> NULL) [fpEntryAction sA, fpEntryAction sB, fpEntryAction sC])"
    unfolding run_entries_def run_exits_def by simp
  moreover have "calls (run_entries app ctx [fpEntryAction sA, fpEntryAction sB, fpEntryAction sC] ?w3) =
        calls w2
        @ map ExitCall
            (filter (\<lambda>f. f \<noteq> NULL) (exit_fptrs g (iNestedStateIds os) (iNestDepth os) 0))
        @ map EntryCall
            (filter (\<lambda>f. f \<noteq> NULL) [fpEntryAction sA, fpEntryAction sB, fpEntryAction sC])"
    unfolding run_entries_def run_exits_def by simp
  ultimately show ?thesis by blast
qed

text \<open>
  A run on the application with memory: from the start state \<open>0\<close> of \<open>g_chain\<close>,
  event \<open>7\<close> goes to the complex state \<open>1\<close>.  The memory and the log show the
  action \<open>10\<close>, the exit function \<open>30\<close> of the state \<open>0\<close>, then the entry
  functions \<open>21\<close>, \<open>22\<close>, \<open>23\<close> of the states \<open>1\<close>, \<open>2\<close>, \<open>3\<close>.
\<close>

theorem enter_nested_complex_state_witness:
  "object_state_ok (os_at 0)
   \<and> fsmGetState (listStates g_chain) (iNestedStateIds (os_at 0) ! 0) = Some st_idle
   \<and> fsmExecuteState app_rec \<lparr>argEventId = 7, AppContext = (), pAppMsg = ()\<rparr> st_idle (- 1) False
        w_rec = Inr (eFSM_RESULT_NEW_STATE, 1, False, \<lparr>mem = [10], calls = [ActionCall 10]\<rparr>)
   \<and> fsmGetState (listStates g_chain) 1
       = Some ((st_plain 1 21 31)\<lparr>bComplex := True, iInitialSubStateId := 2\<rparr>)
   \<and> fsmGetState (listStates g_chain) 2
       = Some ((st_plain 2 22 32)\<lparr>bComplex := True, iInitialSubStateId := 3\<rparr>)
   \<and> fsmGetState (listStates g_chain) 3 = Some (st_plain 3 23 33)
   \<and> exit_fptrs g_chain (iNestedStateIds (os_at 0)) (iNestDepth (os_at 0)) 0 = [30]
   \<and> fsmExecute app_rec (Some g_chain) (os_at 0) 7 () () w_rec =
       Inr (eFSM_RESULT_NEW_STATE,
            \<lparr>iNestDepth = 2, iNestedStateIds = [1, 2, 3, 0], iPreviousStateId = 0\<rparr>,
            \<lparr>mem = [10, 30, 21, 22, 23],
             calls = [ActionCall 10, ExitCall 30, EntryCall 21, EntryCall 22, EntryCall 23]\<rparr>)"
proof -
  let ?args = "\<lparr>argEventId = 7, AppContext = (), pAppMsg = ()\<rparr> :: (unit, unit) FSM_EXECUTE_ARGS"
  let ?sA = "(st_plain 1 21 31)\<lparr>bComplex := True, iInitialSubStateId := 2\<rparr>"
  let ?sB = "(st_plain 2 22 32)\<lparr>bComplex := True, iInitialSubStateId := 3\<rparr>"
  let ?sC = "st_plain 3 23 33"
  let ?w2 = "\<lparr>mem = [10], calls = [ActionCall 10]\<rparr> :: nat list world"
  have ok: "object_state_ok (os_at 0)" by (simp add: object_state_ok_def os_at_def)
  have ev: "(7 :: int) \<noteq> FSM_CATCH_TRANSITION" by simp
  have s0: "fsmGetState (listStates g_chain) (iNestedStateIds (os_at 0) ! 0) = Some st_idle"
    by (simp add: ex_defs)
  have match: "fsmExecuteState app_rec ?args st_idle (- 1) False w_rec
      = Inr (eFSM_RESULT_NEW_STATE, 1, False, ?w2)"
    by (simp add: ex_defs run_defs)
  have A: "(0 :: int) \<le> 1" "fsmGetState (listStates g_chain) 1 = Some ?sA" "bComplex ?sA"
      "iInitialSubStateId ?sA = 2"
    by (simp_all add: ex_defs)
  have B: "(0 :: int) \<le> 2" "fsmGetState (listStates g_chain) 2 = Some ?sB" "bComplex ?sB"
      "iInitialSubStateId ?sB = 3"
    by (simp_all add: ex_defs)
  have C: "(0 :: int) \<le> 3" "fsmGetState (listStates g_chain) 3 = Some ?sC" "\<not> bComplex ?sC"
    by (simp_all add: ex_defs)
  have xs: "exit_fptrs g_chain (iNestedStateIds (os_at 0)) (iNestDepth (os_at 0)) 0 = [30]"
    by (simp add: ex_defs exit_fptrs_def)
  have w4: "run_entries app_rec () [fpEntryAction ?sA, fpEntryAction ?sB, fpEntryAction ?sC]
              (run_exits app_rec () [30] ?w2)
      = \<lparr>mem = [10, 30, 21, 22, 23],
         calls = [ActionCall 10, ExitCall 30, EntryCall 21, EntryCall 22, EntryCall 23]\<rparr>"
    by (simp add: ex_defs run_entries_def run_exits_def)
  have os': "\<lparr>iNestDepth = 2, iNestedStateIds = [1, 2, 3, iNestedStateIds (os_at 0) ! 3],
             iPreviousStateId = iNestedStateIds (os_at 0) ! nat (iNestDepth (os_at 0))\<rparr>
      = \<lparr>iNestDepth = 2, iNestedStateIds = [1, 2, 3, 0], iPreviousStateId = 0\<rparr>"
    by (simp add: os_at_def)
  from enter_nested_complex_state [OF ok ev s0 match A B C]
  have "fsmExecute app_rec (Some g_chain) (os_at 0) 7 () () w_rec =
        Inr (eFSM_RESULT_NEW_STATE,
             \<lparr>iNestDepth = 2, iNestedStateIds = [1, 2, 3, iNestedStateIds (os_at 0) ! 3],
              iPreviousStateId = iNestedStateIds (os_at 0) ! nat (iNestDepth (os_at 0))\<rparr>,
             run_entries app_rec () [fpEntryAction ?sA, fpEntryAction ?sB, fpEntryAction ?sC]
               (run_exits app_rec ()
                  (exit_fptrs g_chain (iNestedStateIds (os_at 0)) (iNestDepth (os_at 0)) 0) ?w2))"
    by blast
  then have run: "fsmExecute app_rec (Some g_chain) (os_at 0) 7 () () w_rec =
       Inr (eFSM_RESULT_NEW_STATE,
            \<lparr>iNestDepth = 2, iNestedStateIds = [1, 2, 3, 0], iPreviousStateId = 0\<rparr>,
            \<lparr>mem = [10, 30, 21, 22, 23],
             calls = [ActionCall 10, ExitCall 30, EntryCall 21, EntryCall 22, EntryCall 23]\<rparr>)"
    by (simp only: xs w4 os')
  from ok s0 match A(2) B(2) C(2) xs run show ?thesis by blast
qed

lemma fsmExecute_scan_depth:
  "fsmExecute_scan app g os args c nid sub w = Inr (ScanEnd r nid' sub' k w') \<Longrightarrow>
     k = 0 \<or> (c \<le> k \<and> k \<le> iNestDepth os)"
proof (induction app g os args c nid sub w rule: fsmExecute_scan.induct)
  case (1 app g os args c nid sub w)
  from "1.prems" show ?case
    by (subst (asm) fsmExecute_scan.simps)
       (fastforce split: if_splits sum.splits option.splits prod.splits dest: "1.IH")
qed

text \<open>
  The entry of a state id that names no state, for every well-formed object state.  Let
  Steps A to C of \<open>fsmExecute\<close> end with the result \<open>NewState\<close> and a target
  \<open>tgt\<close> that is not \<open>PARENT\<close> and names no state of the graph.  After a
  transition that is no sub-state transition the call runs the exits from the current
  depth down to the match depth \<open>k\<close>, writes \<open>tgt\<close> at index \<open>k\<close>, invokes no
  entry function, descends no further and returns \<open>NewState\<close>.  After a sub-state
  transition from a depth below \<open>3\<close> it writes \<open>tgt\<close> at the depth plus one,
  invokes no callback and returns \<open>NewState\<close>.  After a sub-state transition from
  the depth \<open>3\<close>, which the guard of fsm.c 1206 lets through, the write is at index
  \<open>4\<close> of the four-element array.
\<close>

lemma enter_absent_state:
  assumes ok: "object_state_ok os" and ev: "ev \<noteq> FSM_CATCH_TRANSITION"
    and scan: "fsmExecute_scan app g os \<lparr>argEventId = ev, AppContext = ctx, pAppMsg = msg\<rparr>
                 0 (- 1) False w = Inr (ScanEnd r nid sub k w1)"
    and any: "fsmExecute_any app g \<lparr>argEventId = ev, AppContext = ctx, pAppMsg = msg\<rparr>
                r nid sub w1 = Inr (eFSM_RESULT_NEW_STATE, tgt, isSub, w2)"
    and tgt: "tgt \<noteq> FSM_ST_PARENT" "fsmGetState (listStates g) tgt = None"
  shows "fsmExecute app (Some g) os ev ctx msg w =
     (if isSub then
        (if iNestDepth os < FSM_MAX_STATE_NEST_DEPTH - 1 then
           Inr (eFSM_RESULT_NEW_STATE,
                \<lparr>iNestDepth = iNestDepth os + 1,
                 iNestedStateIds = (iNestedStateIds os)[nat (iNestDepth os + 1) := tgt],
                 iPreviousStateId = iNestedStateIds os ! nat (iNestDepth os)\<rparr>,
                w2)
         else Inl (OutOfBoundsWrite FSM_MAX_STATE_NEST_DEPTH))
      else
        Inr (eFSM_RESULT_NEW_STATE,
             \<lparr>iNestDepth = k,
              iNestedStateIds = (iNestedStateIds os)[nat k := tgt],
              iPreviousStateId = iNestedStateIds os ! nat (iNestDepth os)\<rparr>,
             run_exits app ctx (exit_fptrs g (iNestedStateIds os) (iNestDepth os) k) w2))"
proof -
  let ?args = "\<lparr>argEventId = ev, AppContext = ctx, pAppMsg = msg\<rparr>"
  let ?d = "iNestDepth os"
  from ok have len: "length (iNestedStateIds os) = 4" and d: "0 \<le> ?d" "?d < 4"
    by (simp_all add: object_state_ok_def)
  have run: "fsmExecute app (Some g) os ev ctx msg w =
      fsmExecute_change app g os ctx eFSM_RESULT_NEW_STATE tgt isSub k w2"
    using ev scan any by (simp add: fsmExecute_def)
  show ?thesis
  proof (cases isSub)
    case True
    show ?thesis
    proof (cases "?d < 3")
      case lt: True
      with True len d tgt show ?thesis
        by (simp add: run fsmExecute_change_def nest_read_ok fsmExecute_entry_def
              fsmExecute_entry_loop_absent)
    next
      case False
      with d have "?d = 3" by simp
      with True len tgt show ?thesis
        by (simp add: run fsmExecute_change_def nest_read_ok fsmExecute_entry_def
              fsmExecute_entry_loop.simps nest_write_def)
    qed
  next
    case False
    from fsmExecute_scan_depth [OF scan] d have k: "0 \<le> k" "k < 4" by auto
    have ex: "fsmExecute_exit app g os ctx ?d k w2 =
        Inr (run_exits app ctx (exit_fptrs g (iNestedStateIds os) ?d k) w2)"
      using len d(2) k(1) by (rule fsmExecute_exit_run)
    show ?thesis
      using False len d k tgt ex
      by (simp add: run fsmExecute_change_def nest_read_ok fsmExecute_exit_previous
            fsmExecute_entry_def fsmExecute_entry_loop_absent)
  qed
qed

text \<open>
  Claim C7 fails on the code, by the defect of claim C2.  The id \<open>99\<close> names no
  state of \<open>g_chain\<close>, and the state \<open>0\<close> has a sub-state transition to it on event
  \<open>9\<close>.  From the start state \<open>0\<close>, three events \<open>9\<close> do what the claim says:
  each call writes \<open>99\<close> into the array at the depth reached, invokes no callback
  (the memory and the log stay empty) and returns \<open>NewState\<close>.  The fourth call
  starts at depth \<open>3\<close>; the guard of fsm.c 1206 lets the push through, and the
  write of the id is at index \<open>4\<close> of the four-element array: the call does not
  return \<open>NewState\<close> with the id in the array.
\<close>

theorem enter_absent_state_overflow:
  "fsmGetState (listStates g_chain) 99 = None
   \<and> fsmSetStartState \<lparr>iNestDepth = 0, iNestedStateIds = [0, 0, 0, 0], iPreviousStateId = 0\<rparr> 0 0
       = Inr (os_at 0)
   \<and> fsmExecute app_rec (Some g_chain) (os_at 0) 9 () () w_rec =
       Inr (eFSM_RESULT_NEW_STATE,
            \<lparr>iNestDepth = 1, iNestedStateIds = [0, 99, 0, 0], iPreviousStateId = 0\<rparr>, w_rec)
   \<and> fsmExecute app_rec (Some g_chain)
        \<lparr>iNestDepth = 1, iNestedStateIds = [0, 99, 0, 0], iPreviousStateId = 0\<rparr> 9 () () w_rec =
       Inr (eFSM_RESULT_NEW_STATE,
            \<lparr>iNestDepth = 2, iNestedStateIds = [0, 99, 99, 0], iPreviousStateId = 99\<rparr>, w_rec)
   \<and> fsmExecute app_rec (Some g_chain)
        \<lparr>iNestDepth = 2, iNestedStateIds = [0, 99, 99, 0], iPreviousStateId = 99\<rparr> 9 () () w_rec =
       Inr (eFSM_RESULT_NEW_STATE,
            \<lparr>iNestDepth = 3, iNestedStateIds = [0, 99, 99, 99], iPreviousStateId = 99\<rparr>, w_rec)
   \<and> object_state_ok \<lparr>iNestDepth = 3, iNestedStateIds = [0, 99, 99, 99], iPreviousStateId = 99\<rparr>
   \<and> fsmExecute app_rec (Some g_chain)
        \<lparr>iNestDepth = 3, iNestedStateIds = [0, 99, 99, 99], iPreviousStateId = 99\<rparr> 9 () () w_rec =
       Inl (OutOfBoundsWrite 4)"
  by (simp add: ex_defs run_defs fsmSetStartState_def object_state_ok_def)

text \<open>
  The sub-state push from depth \<open>3\<close>, for any graph and any well-formed object
  state: the call never returns \<open>InternalFailure\<close>.  The depth becomes \<open>4\<close>; the
  entry then writes at index \<open>4\<close>, unless the target is the parent, when the call
  returns \<open>NewState\<close> with the depth \<open>4\<close>.
\<close>

lemma sub_state_push_at_depth_3:
  assumes ok: "object_state_ok os" and d: "iNestDepth os = 3"
    and ev: "ev \<noteq> FSM_CATCH_TRANSITION"
    and scan: "fsmExecute_scan app g os \<lparr>argEventId = ev, AppContext = ctx, pAppMsg = msg\<rparr>
                 0 (- 1) False w = Inr (ScanEnd r nid sub k w1)"
    and any: "fsmExecute_any app g \<lparr>argEventId = ev, AppContext = ctx, pAppMsg = msg\<rparr>
                r nid sub w1 = Inr (eFSM_RESULT_NEW_STATE, tgt, True, w2)"
  shows "fsmExecute app (Some g) os ev ctx msg w =
           (if tgt = FSM_ST_PARENT
            then Inr (eFSM_RESULT_NEW_STATE,
                      os\<lparr>iPreviousStateId := iNestedStateIds os ! 3, iNestDepth := 4\<rparr>, w2)
            else Inl (OutOfBoundsWrite 4))"
  using ok d ev scan any
  by (simp add: fsmExecute_def fsmExecute_change_def object_state_ok_def nest_read_def
        fsmExecute_entry_def fsmExecute_entry_loop.simps nest_write_def)

text \<open>
  Claim C2 fails on the code.  The guard of the sub-state push compares the depth with
  \<open>FSM_MAX_STATE_NEST_DEPTH\<close> (fsm.c 1206), not with
  \<open>FSM_MAX_STATE_NEST_DEPTH - 1\<close> as the guard of the complex-state descent does
  (fsm.c 1279).  From the start state \<open>0\<close> of \<open>g_push\<close>, three events \<open>9\<close> push
  the depth to \<open>3\<close>; the fourth does not return \<open>InternalFailure\<close> but increments
  the depth to \<open>4\<close> and writes at index \<open>4\<close> of the four-element array.  With the
  parent as target (event \<open>6\<close>) nothing is written, and the call returns
  \<open>NewState\<close> with the depth \<open>4\<close>.
\<close>

theorem sub_state_push_overflow:
  "fsmSetStartState \<lparr>iNestDepth = 0, iNestedStateIds = [0, 0, 0, 0], iPreviousStateId = 0\<rparr> 0 0
     = Inr (os_at 0)
   \<and> fsmExecute app_ex (Some g_push) (os_at 0) 9 () () w_ex =
       Inr (eFSM_RESULT_NEW_STATE,
            \<lparr>iNestDepth = 1, iNestedStateIds = [0, 5, 0, 0], iPreviousStateId = 0\<rparr>,
            \<lparr>mem = (), calls = [EntryCall 25]\<rparr>)
   \<and> fsmExecute app_ex (Some g_push)
        \<lparr>iNestDepth = 1, iNestedStateIds = [0, 5, 0, 0], iPreviousStateId = 0\<rparr> 9 () () w_ex =
       Inr (eFSM_RESULT_NEW_STATE,
            \<lparr>iNestDepth = 2, iNestedStateIds = [0, 5, 5, 0], iPreviousStateId = 5\<rparr>,
            \<lparr>mem = (), calls = [EntryCall 25]\<rparr>)
   \<and> fsmExecute app_ex (Some g_push)
        \<lparr>iNestDepth = 2, iNestedStateIds = [0, 5, 5, 0], iPreviousStateId = 5\<rparr> 9 () () w_ex =
       Inr (eFSM_RESULT_NEW_STATE,
            \<lparr>iNestDepth = 3, iNestedStateIds = [0, 5, 5, 5], iPreviousStateId = 5\<rparr>,
            \<lparr>mem = (), calls = [EntryCall 25]\<rparr>)
   \<and> fsmExecute app_ex (Some g_push)
        \<lparr>iNestDepth = 3, iNestedStateIds = [0, 5, 5, 5], iPreviousStateId = 5\<rparr> 9 () () w_ex =
       Inl (OutOfBoundsWrite 4)
   \<and> fsmExecute app_ex (Some g_push)
        \<lparr>iNestDepth = 3, iNestedStateIds = [0, 5, 5, 5], iPreviousStateId = 5\<rparr> 6 () () w_ex =
       Inr (eFSM_RESULT_NEW_STATE,
            \<lparr>iNestDepth = 4, iNestedStateIds = [0, 5, 5, 5], iPreviousStateId = 5\<rparr>, w_ex)"
  by (simp add: ex_defs run_defs fsmSetStartState_def)

section \<open>The verifier\<close>

lemma transitions_enter_iff:
  "transitions_enter ts sid \<longleftrightarrow> (\<exists>t \<in> set ts. iNewStateId t = sid)"
  by (induction ts) auto

lemma states_enter_iff:
  "states_enter ss sid \<longleftrightarrow>
     (\<exists>s \<in> set ss. \<exists>t \<in> set (listTransitions s). iNewStateId t = sid)"
  by (induction ss) (auto simp: transitions_enter_iff)

lemma fsmIsStateEntered_iff:
  "fsmIsStateEntered (Some g) sid \<longleftrightarrow> \<not> never_entered g sid"
  by (auto simp: fsmIsStateEntered_def never_entered_def states_enter_iff)

lemma transitions_exit_iff:
  "transitions_exit ts sid \<longleftrightarrow>
     (\<exists>t \<in> set ts. iNewStateId t \<noteq> sid \<and> iNewStateId t \<noteq> FSM_ST_SAME)"
  by (induction ts) auto

lemma states_exit_iff:
  "states_exit ss sid \<longleftrightarrow>
     (\<exists>s \<in> set ss. iStateId s = sid \<and>
        (\<exists>t \<in> set (listTransitions s). iNewStateId t \<noteq> sid \<and> iNewStateId t \<noteq> FSM_ST_SAME))"
  by (induction ss) (auto simp: transitions_exit_iff)

lemma fsmIsStateExitted_iff:
  "fsmIsStateExitted (Some g) sid \<longleftrightarrow> \<not> never_exited g sid"
  by (auto simp: fsmIsStateExitted_def never_exited_def states_exit_iff)

lemma report_all_simps [simp]:
  "report_all cb v [] = v"
  "report_all cb v ((sid, err) # xs) = report_all cb (call_verify_cb cb sid err v) xs"
  "report_all cb v (xs @ ys) = report_all cb (report_all cb v xs) ys"
  by (simp_all add: report_all_def)

lemma verify_entered_loop_eq:
  "verify_entered_loop g cb ss rc v =
     (let xs = [(iStateId s, eFSM_VERIFY_ERROR_NOENTRY).
                  s \<leftarrow> ss, iStateId s \<noteq> FSM_ST_ANY, never_entered g (iStateId s)]
      in (rc \<and> xs = [], report_all cb v xs))"
  by (induction ss arbitrary: rc v) (auto simp: fsmIsStateEntered_iff Let_def)

lemma verify_exitted_transitions_eq:
  "verify_exitted_transitions g cb ts rc v =
     (let xs = [(iNewStateId t, eFSM_VERIFY_ERROR_NOEXIT).
                  t \<leftarrow> ts, 0 \<le> iNewStateId t, never_exited g (iNewStateId t)]
      in (rc \<and> xs = [], report_all cb v xs))"
  by (induction ts arbitrary: rc v) (auto simp: fsmIsStateExitted_iff Let_def)

lemma verify_exitted_loop_eq:
  "verify_exitted_loop g cb ss rc v =
     (let xs = [(iNewStateId t, eFSM_VERIFY_ERROR_NOEXIT).
                  s \<leftarrow> ss, t \<leftarrow> listTransitions s, 0 \<le> iNewStateId t,
                  never_exited g (iNewStateId t)]
      in (rc \<and> xs = [], report_all cb v xs))"
  by (induction ss arbitrary: rc v) (auto simp: verify_exitted_transitions_eq Let_def)

lemma fsmVerifyFsm_eq:
  "fsmVerifyFsm (Some g) cb v =
     (verify_violations g = [], report_all cb v (verify_violations g))"
  by (auto simp: fsmVerifyFsm_def verify_entered_loop_eq verify_exitted_loop_eq
        verify_violations_def Let_def)

lemma no_entry_violation_iff:
  "[(iStateId s, eFSM_VERIFY_ERROR_NOENTRY).
      s \<leftarrow> ss, iStateId s \<noteq> FSM_ST_ANY, never_entered g (iStateId s)] = [] \<longleftrightarrow>
   \<not> (\<exists>s \<in> set ss. iStateId s \<noteq> FSM_ST_ANY \<and> never_entered g (iStateId s))"
  by (induction ss) simp_all

lemma no_exit_violation_transitions_iff:
  "[(iNewStateId t, eFSM_VERIFY_ERROR_NOEXIT).
      t \<leftarrow> ts, 0 \<le> iNewStateId t, never_exited g (iNewStateId t)] = [] \<longleftrightarrow>
   \<not> (\<exists>t \<in> set ts. 0 \<le> iNewStateId t \<and> never_exited g (iNewStateId t))"
  by (induction ts) simp_all

lemma no_exit_violation_iff:
  "[(iNewStateId t, eFSM_VERIFY_ERROR_NOEXIT).
      s \<leftarrow> ss, t \<leftarrow> listTransitions s, 0 \<le> iNewStateId t,
      never_exited g (iNewStateId t)] = [] \<longleftrightarrow>
   \<not> (\<exists>s \<in> set ss. \<exists>t \<in> set (listTransitions s).
          0 \<le> iNewStateId t \<and> never_exited g (iNewStateId t))"
proof (induction ss)
  case Nil
  show ?case by simp
next
  case (Cons s ss)
  show ?case
    using Cons.IH no_exit_violation_transitions_iff [where ts = "listTransitions s" and g = g]
    by simp
qed

lemma verify_violations_empty_iff:
  "verify_violations g = [] \<longleftrightarrow>
     \<not> ((\<exists>s \<in> set (listStates g). iStateId s \<noteq> FSM_ST_ANY \<and> never_entered g (iStateId s))
        \<or> (\<exists>s \<in> set (listStates g). \<exists>t \<in> set (listTransitions s).
              0 \<le> iNewStateId t \<and> never_exited g (iNewStateId t)))"
  unfolding verify_violations_def append_is_Nil_conv
    no_entry_violation_iff no_exit_violation_iff
  by blast

lemma report_all_log:
  "report_all (Some (\<lambda>sid err l. l @ [(sid, err)])) l xs = l @ xs"
  by (induction xs arbitrary: l) (auto simp: call_verify_cb_def)


text \<open>
  Claim C8.  For every graph, \<open>fsmVerifyFsm\<close> returns false if and only if some
  state other than the any-state has an id that is the target of no transition of any
  state, or some transition with a target \<open>\<ge> 0\<close> points at an id such that no
  state with that id has a transition to a different id other than \<open>SAME\<close>.  The
  pass does not stop at the first violation: the callback is called for every one of
  them, in the order of the pass (with a callback that appends to a log, the log grows
  by exactly the list of violations); and the result is true if and only if that list
  is empty.  A \<open>NULL\<close> callback is not called, and the result is the same.
\<close>

theorem fsmVerifyFsm_violations:
  "(fst (fsmVerifyFsm (Some g) cb v) = False \<longleftrightarrow>
       (\<exists>s \<in> set (listStates g). iStateId s \<noteq> FSM_ST_ANY \<and> never_entered g (iStateId s))
     \<or> (\<exists>s \<in> set (listStates g). \<exists>t \<in> set (listTransitions s).
           0 \<le> iNewStateId t \<and> never_exited g (iNewStateId t)))
   \<and> snd (fsmVerifyFsm (Some g) cb v) =
       foldl (\<lambda>v (sid, err). call_verify_cb cb sid err v) v (verify_violations g)
   \<and> snd (fsmVerifyFsm (Some g) (Some (\<lambda>sid err l. l @ [(sid, err)])) l) =
       l @ verify_violations g
   \<and> (fst (fsmVerifyFsm (Some g) cb v) \<longleftrightarrow> verify_violations g = [])"
proof -
  have "fst (fsmVerifyFsm (Some g) cb v) \<longleftrightarrow> verify_violations g = []"
    by (simp add: fsmVerifyFsm_eq)
  moreover have "snd (fsmVerifyFsm (Some g) cb v) =
      foldl (\<lambda>v (sid, err). call_verify_cb cb sid err v) v (verify_violations g)"
    by (simp add: fsmVerifyFsm_eq report_all_def)
  moreover have "snd (fsmVerifyFsm (Some g) (Some (\<lambda>sid err l. l @ [(sid, err)])) l) =
      l @ verify_violations g"
    by (simp add: fsmVerifyFsm_eq report_all_log)
  ultimately show ?thesis
    using verify_violations_empty_iff [of g] by blast
qed


theorem fsmVerifyFsm_violations_witness:
  "verify_violations g_chain =
     [(0, eFSM_VERIFY_ERROR_NOENTRY), (2, eFSM_VERIFY_ERROR_NOENTRY),
      (3, eFSM_VERIFY_ERROR_NOENTRY), (1, eFSM_VERIFY_ERROR_NOEXIT),
      (99, eFSM_VERIFY_ERROR_NOEXIT), (99, eFSM_VERIFY_ERROR_NOEXIT)]
   \<and> fsmVerifyFsm (Some g_chain) (Some (\<lambda>sid err l. l @ [(sid, err)])) [] =
       (False,
        [(0, eFSM_VERIFY_ERROR_NOENTRY), (2, eFSM_VERIFY_ERROR_NOENTRY),
         (3, eFSM_VERIFY_ERROR_NOENTRY), (1, eFSM_VERIFY_ERROR_NOEXIT),
         (99, eFSM_VERIFY_ERROR_NOEXIT), (99, eFSM_VERIFY_ERROR_NOEXIT)])
   \<and> fsmVerifyFsm (Some \<lparr>listStates = [], bCreateError = False\<rparr>)
        (Some (\<lambda>sid err l. l @ [(sid, err)])) [] = (True, [])"
proof -
  let ?cb = "Some (\<lambda>sid err l. l @ [(sid :: int, err :: FSM_VERIFY_ERROR)])"
  let ?g0 = "\<lparr>listStates = [], bCreateError = False\<rparr>"
  have v: "verify_violations g_chain =
     [(0, eFSM_VERIFY_ERROR_NOENTRY), (2, eFSM_VERIFY_ERROR_NOENTRY),
      (3, eFSM_VERIFY_ERROR_NOENTRY), (1, eFSM_VERIFY_ERROR_NOEXIT),
      (99, eFSM_VERIFY_ERROR_NOEXIT), (99, eFSM_VERIFY_ERROR_NOEXIT)]"
    by (simp add: verify_violations_def never_entered_def never_exited_def ex_defs)
  have v0: "verify_violations ?g0 = []"
    by (simp add: verify_violations_def)
  have r: "fsmVerifyFsm (Some g_chain) ?cb [] =
      (fst (fsmVerifyFsm (Some g_chain) ?cb []), snd (fsmVerifyFsm (Some g_chain) ?cb []))"
    by simp
  have r0: "fsmVerifyFsm (Some ?g0) ?cb [] =
      (fst (fsmVerifyFsm (Some ?g0) ?cb []), snd (fsmVerifyFsm (Some ?g0) ?cb []))"
    by simp
  from fsmVerifyFsm_violations [of g_chain ?cb "[]" "[]"] v
  have "fsmVerifyFsm (Some g_chain) ?cb [] =
       (False,
        [(0, eFSM_VERIFY_ERROR_NOENTRY), (2, eFSM_VERIFY_ERROR_NOENTRY),
         (3, eFSM_VERIFY_ERROR_NOENTRY), (1, eFSM_VERIFY_ERROR_NOEXIT),
         (99, eFSM_VERIFY_ERROR_NOEXIT), (99, eFSM_VERIFY_ERROR_NOEXIT)])"
    by (subst r) (simp add: call_verify_cb_def)
  moreover from fsmVerifyFsm_violations [of ?g0 ?cb "[]" "[]"] v0
  have "fsmVerifyFsm (Some ?g0) ?cb [] = (True, [])"
    by (subst r0) (simp add: call_verify_cb_def)
  ultimately show ?thesis using v by blast
qed

section \<open>The builder\<close>

lemma fsmCatchTransition_duplicate:
  assumes "h < length (listStates fsm)"
    and "fsmGetTransition (listTransitions (listStates fsm ! h)) FSM_CATCH_TRANSITION \<noteq> None"
  shows "fsmCatchTransition fsm heap (Some h) a_iNewStateId fps = Inr (False, fsm, heap)"
  using assms by (simp add: fsmCatchTransition_def Let_def)

text \<open>
  Claim C9 fails on the code in its last part.  The state \<open>4\<close> of \<open>g_fail\<close> has no
  catch transition; a first \<open>fsmCatchTransition\<close> adds one and returns true.  A
  second call on the same state returns false and adds nothing, as the claim says, but
  it returns before any write to \<open>bCreateError\<close> (fsm.c 871-872): the flag stays
  clear and \<open>fsmHasCreateErrorOccurred\<close> returns false.
\<close>

theorem second_catch_transition_sets_no_error:
  "fsmGetTransition (listTransitions (listStates g_fail ! 0)) FSM_CATCH_TRANSITION = None
   \<and> fsmCatchTransition g_fail 10 (Some 0) 3 [9, 14] =
       Inr (True, \<lparr>listStates = [st_failing\<lparr>listTransitions := [tr_failing, tr_catch]\<rparr>,
                                 st_plain 2 22 32], bCreateError = False\<rparr>, 7)
   \<and> fsmCatchTransition
        \<lparr>listStates = [st_failing\<lparr>listTransitions := [tr_failing, tr_catch]\<rparr>,
                       st_plain 2 22 32], bCreateError = False\<rparr> 7 (Some 0) 2 [15] =
       Inr (False, \<lparr>listStates = [st_failing\<lparr>listTransitions := [tr_failing, tr_catch]\<rparr>,
                                  st_plain 2 22 32], bCreateError = False\<rparr>, 7)
   \<and> fsmHasCreateErrorOccurred
        (Some \<lparr>listStates = [st_failing\<lparr>listTransitions := [tr_failing, tr_catch]\<rparr>,
                             st_plain 2 22 32], bCreateError = False\<rparr>) = False"
  by (simp add: fsmCatchTransition_def fsmCreateObject_def fsmHasCreateErrorOccurred_def ex_defs)

end
